theory Spec2Isabelle
  imports Main
begin

section \<open>Formatting utilities (lib/utils)\<close>

subsection \<open>formatPhoneNumber\<close>

text \<open>
  A JavaScript string is modelled as a \<open>string\<close> (a list of characters).  The regular
  expression \<open>/\D/g\<close> matches every character that is not one of the ten ASCII digits, so
  \<open>phone.replace(/\D/g, "")\<close> keeps exactly the ASCII digits, in order.
\<close>

definition is_digit :: "char \<Rightarrow> bool" where
  "is_digit c \<longleftrightarrow> c \<in> set ''0123456789''"

definition strip_non_digits :: "string \<Rightarrow> string" where
  "strip_non_digits s = filter is_digit s"

text \<open>\<open>s.slice(b, e)\<close> and \<open>s.slice(b)\<close> for indices \<open>0 \<le> b\<close>, \<open>0 \<le> e\<close>: both are
  clamped to the length of the string, and \<open>e \<le> b\<close> gives the empty string.\<close>

definition slice :: "string \<Rightarrow> nat \<Rightarrow> nat \<Rightarrow> string" where
  "slice s b e = take (e - b) (drop b s)"

definition slice_from :: "string \<Rightarrow> nat \<Rightarrow> string" where
  "slice_from s b = drop b s"

definition formatPhoneNumber :: "string \<Rightarrow> string" where
  "formatPhoneNumber phone =
     (if phone = [] then []
      else let digits = strip_non_digits phone in
        if length digits = 10
        then ''('' @ slice digits 0 3 @ '') '' @ slice digits 3 6 @ ''-'' @ slice_from digits 6
        else phone)"

lemma strip_non_digits_append:
  "strip_non_digits (xs @ ys) = strip_non_digits xs @ strip_non_digits ys"
  by (simp add: strip_non_digits_def)

lemma strip_non_digits_idem:
  "strip_non_digits (strip_non_digits s) = strip_non_digits s"
  by (simp add: strip_non_digits_def)

lemma strip_non_digits_all:
  "\<forall>c \<in> set s. is_digit c \<Longrightarrow> strip_non_digits s = s"
  by (simp add: strip_non_digits_def)

lemma digits_of_strip: "c \<in> set (strip_non_digits s) \<Longrightarrow> is_digit c"
  by (simp add: strip_non_digits_def)

lemma strip_non_digits_Cons:
  "strip_non_digits (c # s) = (if is_digit c then c # strip_non_digits s else strip_non_digits s)"
  by (simp add: strip_non_digits_def)

lemma punctuation_not_digit:
  "\<not> is_digit CHR ''(''" "\<not> is_digit CHR '')''" "\<not> is_digit CHR '' ''" "\<not> is_digit CHR ''-''"
  by (simp_all add: is_digit_def)

lemma take3_take3_drop6: "take 3 xs @ take 3 (drop 3 xs) @ drop 6 xs = xs"
proof -
  have "take 3 (drop 3 xs) @ drop 6 xs = drop 3 xs"
    using append_take_drop_id[of 3 "drop 3 xs"] by simp
  then show ?thesis by simp
qed

lemma strip_formatted:
  assumes "length (strip_non_digits phone) = 10"
  shows "strip_non_digits (formatPhoneNumber phone) = strip_non_digits phone"
proof -
  let ?d = "strip_non_digits phone"
  have ne: "phone \<noteq> []" using assms by (auto simp: strip_non_digits_def)
  have part: "strip_non_digits (take n (drop k ?d)) = take n (drop k ?d)" for n k
    by (rule strip_non_digits_all) (auto dest!: in_set_takeD in_set_dropD digits_of_strip)
  have part': "strip_non_digits (drop k ?d) = drop k ?d" for k
    by (rule strip_non_digits_all) (auto dest!: in_set_dropD digits_of_strip)
  have "strip_non_digits (formatPhoneNumber phone)
        = take 3 ?d @ take 3 (drop 3 ?d) @ drop 6 ?d"
    using assms ne part[of 3 0] part[of 3 3] part'[of 6]
    by (simp add: formatPhoneNumber_def Let_def slice_def slice_from_def
        strip_non_digits_append strip_non_digits_Cons punctuation_not_digit)
  then show ?thesis by (simp only: take3_take3_drop6)
qed

text \<open>Claim C4.  When the digit content of the input is the ten digits
  \<open>a b c d e f g h i j\<close>, \<open>formatPhoneNumber\<close> returns \<open>(abc) def-ghij\<close>; stripping the
  non-digits of that output gives back the same ten digits, and formatting the stripped
  output, or the output itself, gives the same string again; and an input whose digit count
  is not ten is returned unchanged.\<close>

theorem formatPhoneNumber_spec:
  "(strip_non_digits phone = [a, b, c, d, e, f, g, h, i, j] \<longrightarrow>
      formatPhoneNumber phone =
        [CHR ''('', a, b, c, CHR '')'', CHR '' '', d, e, f, CHR ''-'', g, h, i, j] \<and>
      strip_non_digits (formatPhoneNumber phone) = strip_non_digits phone \<and>
      formatPhoneNumber (strip_non_digits (formatPhoneNumber phone)) = formatPhoneNumber phone \<and>
      formatPhoneNumber (formatPhoneNumber phone) = formatPhoneNumber phone) \<and>
   (length (strip_non_digits phone) \<noteq> 10 \<longrightarrow> formatPhoneNumber phone = phone)"
proof (intro conjI impI)
  assume ds: "strip_non_digits phone = [a, b, c, d, e, f, g, h, i, j]"
  then have len: "length (strip_non_digits phone) = 10" by simp
  have ne: "phone \<noteq> []" using ds by (auto simp: strip_non_digits_def)
  show fmt: "formatPhoneNumber phone =
        [CHR ''('', a, b, c, CHR '')'', CHR '' '', d, e, f, CHR ''-'', g, h, i, j]"
    using ds ne by (simp add: formatPhoneNumber_def slice_def slice_from_def)
  show st: "strip_non_digits (formatPhoneNumber phone) = strip_non_digits phone"
    using len by (rule strip_formatted)
  show "formatPhoneNumber (strip_non_digits (formatPhoneNumber phone)) = formatPhoneNumber phone"
    unfolding st formatPhoneNumber_def[of "strip_non_digits phone"] strip_non_digits_idem
    using ds fmt by (simp add: slice_def slice_from_def)
  show "formatPhoneNumber (formatPhoneNumber phone) = formatPhoneNumber phone"
    unfolding formatPhoneNumber_def[of "formatPhoneNumber phone"] st
    using ds fmt by (simp add: slice_def slice_from_def)
next
  assume "length (strip_non_digits phone) \<noteq> 10"
  then show "formatPhoneNumber phone = phone"
    by (simp add: formatPhoneNumber_def)
qed

theorem formatPhoneNumber_spec_witness:
  "formatPhoneNumber ''202-555.0143'' = ''(202) 555-0143'' \<and>
   formatPhoneNumber ''(202) 555-0143'' = ''(202) 555-0143'' \<and>
   formatPhoneNumber ''12345'' = ''12345''"
proof -
  have d: "strip_non_digits ''202-555.0143'' = ''2025550143''"
    by (simp add: strip_non_digits_def is_digit_def)
  have n: "length (strip_non_digits ''12345'') \<noteq> 10"
    by (simp add: strip_non_digits_def is_digit_def)
  from formatPhoneNumber_spec[of "''202-555.0143''" "CHR ''2''" "CHR ''0''" "CHR ''2''" "CHR ''5''"
      "CHR ''5''" "CHR ''5''" "CHR ''0''" "CHR ''1''" "CHR ''4''" "CHR ''3''"] d
  have 1: "formatPhoneNumber ''202-555.0143'' = ''(202) 555-0143''"
    and 2: "formatPhoneNumber (formatPhoneNumber ''202-555.0143'') = formatPhoneNumber ''202-555.0143''"
    by blast+
  from formatPhoneNumber_spec[of "''12345''"] n
  have 3: "formatPhoneNumber ''12345'' = ''12345''" by blast
  from 1 2 3 show ?thesis by simp
qed

section \<open>Badge (components/ui/badge) and the variants its callers derive\<close>

text \<open>
  \<open>badgeVariants\<close> is built by \<open>cva(base, {variants: {variant: {...}}, defaultVariants:
  {variant: "default"}})\<close>.  The table of the source is kept as an association list from the
  variant name to its class string.  The function returned by \<open>cva\<close> reads the \<open>variant\<close>
  property: \<open>null\<close> switches the variant off, \<open>undefined\<close> (no variant given) falls back to
  the entry of \<open>defaultVariants\<close>, and the class of the resulting key, when the table has
  one, is joined to the base class with a space.
\<close>

datatype 'a js_prop = Undefined | Null | Given 'a

definition badge_base :: string where
  "badge_base = ''inline-flex items-center rounded-full border px-2.5 py-0.5 text-xs font-semibold transition-colors focus:outline-none focus:ring-2 focus:ring-ring focus:ring-offset-2''"

definition badge_variant_table :: "(string \<times> string) list" where
  "badge_variant_table =
    [(''default'', ''border-transparent bg-primary text-primary-foreground hover:bg-primary/80''),
     (''secondary'', ''border-transparent bg-secondary text-secondary-foreground hover:bg-secondary/80''),
     (''destructive'', ''border-transparent bg-destructive text-destructive-foreground hover:bg-destructive/80''),
     (''outline'', ''text-foreground''),
     (''active'', ''border-transparent bg-green-100 text-green-800''),
     (''inactive'', ''border-transparent bg-gray-100 text-gray-800''),
     (''scheduled'', ''border-transparent bg-blue-100 text-blue-800''),
     (''confirmed'', ''border-transparent bg-green-100 text-green-800''),
     (''cancelled'', ''border-transparent bg-red-100 text-red-800''),
     (''completed'', ''border-transparent bg-gray-100 text-gray-800''),
     (''in-progress'', ''border-transparent bg-yellow-100 text-yellow-800''),
     (''urgent'', ''border-transparent bg-red-100 text-red-800''),
     (''high'', ''border-transparent bg-red-100 text-red-800''),
     (''medium'', ''border-transparent bg-yellow-100 text-yellow-800''),
     (''low'', ''border-transparent bg-green-100 text-green-800''),
     (''success'', ''border-transparent bg-status-success text-white''),
     (''warning'', ''border-transparent bg-status-warning text-white''),
     (''error'', ''border-transparent bg-status-error text-white''),
     (''info'', ''border-transparent bg-status-info text-white'')]"

definition badge_default_variant :: string where
  "badge_default_variant = ''default''"

definition badgeVariants :: "string js_prop \<Rightarrow> string" where
  "badgeVariants variant =
     (case variant of
        Null \<Rightarrow> badge_base
      | Undefined \<Rightarrow>
          (case map_of badge_variant_table badge_default_variant of
             Some cls \<Rightarrow> badge_base @ '' '' @ cls
           | None \<Rightarrow> badge_base)
      | Given v \<Rightarrow>
          (case map_of badge_variant_table (if v = [] then badge_default_variant else v) of
             Some cls \<Rightarrow> badge_base @ '' '' @ cls
           | None \<Rightarrow> badge_base))"

text \<open>\<open>Badge\<close> passes the class of \<open>badgeVariants({variant})\<close> and the caller's
  \<open>className\<close> to \<open>cn\<close> (\<open>twMerge(clsx(...))\<close>), which is a parameter here.\<close>

definition Badge :: "(string \<Rightarrow> string option \<Rightarrow> string) \<Rightarrow> string option \<Rightarrow> string js_prop \<Rightarrow> string" where
  "Badge cn className variant = cn (badgeVariants variant) className"

text \<open>\<open>String.prototype.toLowerCase\<close> on the ASCII letters; every other character of the
  (byte) strings of this model is left as it is.\<close>

definition toLowerCase_char :: "char \<Rightarrow> char" where
  "toLowerCase_char c =
     (case map_of (zip ''ABCDEFGHIJKLMNOPQRSTUVWXYZ'' ''abcdefghijklmnopqrstuvwxyz'') c of
        Some l \<Rightarrow> l
      | None \<Rightarrow> c)"

definition toLowerCase :: "string \<Rightarrow> string" where
  "toLowerCase s = map toLowerCase_char s"

text \<open>\<open>getStatusVariant\<close> (appointments page; \<open>getAppointmentStatusVariant\<close> of the dashboard
  and of the patient page is the same switch) and \<open>getPriorityVariant\<close>.  The argument is
  \<open>None\<close> when the value is \<open>undefined\<close> or \<open>null\<close>: then \<open>status?.toLowerCase()\<close> is
  \<open>undefined\<close> and the switch takes its default branch.\<close>

definition getStatusVariant :: "string option \<Rightarrow> string" where
  "getStatusVariant status =
     (case map_option toLowerCase status of
        None \<Rightarrow> ''default''
      | Some l \<Rightarrow>
          if l = ''scheduled'' then ''scheduled''
          else if l = ''confirmed'' then ''confirmed''
          else if l = ''cancelled'' then ''cancelled''
          else if l = ''completed'' then ''completed''
          else if l = ''in_progress'' \<or> l = ''checked_in'' then ''in-progress''
          else ''default'')"

definition getPriorityVariant :: "string option \<Rightarrow> string" where
  "getPriorityVariant urgency =
     (case map_option toLowerCase urgency of
        None \<Rightarrow> ''medium''
      | Some l \<Rightarrow>
          if l = ''urgent'' then ''urgent''
          else if l = ''high'' then ''high''
          else if l = ''medium'' then ''medium''
          else if l = ''low'' then ''low''
          else ''medium'')"

lemma badge_variant_names:
  "map fst badge_variant_table =
    [''default'', ''secondary'', ''destructive'', ''outline'', ''active'', ''inactive'',
     ''scheduled'', ''confirmed'', ''cancelled'', ''completed'', ''in-progress'', ''urgent'',
     ''high'', ''medium'', ''low'', ''success'', ''warning'', ''error'', ''info'']"
  by (simp add: badge_variant_table_def)

lemma badge_default_class:
  "map_of badge_variant_table badge_default_variant =
     Some ''border-transparent bg-primary text-primary-foreground hover:bg-primary/80''"
  by (simp add: badge_variant_table_def badge_default_variant_def)

lemma badge_medium_class:
  "map_of badge_variant_table ''medium'' = Some ''border-transparent bg-yellow-100 text-yellow-800''"
  by (simp add: badge_variant_table_def)

lemma badgeVariants_Given:
  "v \<noteq> [] \<Longrightarrow> map_of badge_variant_table v = Some cls \<Longrightarrow>
     badgeVariants (Given v) = badge_base @ '' '' @ cls"
  by (simp add: badgeVariants_def)

lemma badgeVariants_Undefined:
  "badgeVariants Undefined = badgeVariants (Given ''default'')"
  by (simp add: badgeVariants_def badge_default_variant_def)

lemma getStatusVariant_range:
  "getStatusVariant status \<in>
     {''scheduled'', ''confirmed'', ''cancelled'', ''completed'', ''in-progress'', ''default''}"
  by (simp add: getStatusVariant_def split: option.split)

lemma getPriorityVariant_range:
  "getPriorityVariant urgency \<in> {''urgent'', ''high'', ''medium'', ''low''}"
  by (simp add: getPriorityVariant_def split: option.split)

text \<open>Claim C9, as the code has it.  The badge has a closed table of nineteen variants,
  each with a fixed class; no variant given means the class of \<open>default\<close>.  At the call
  sites, a status that is absent or outside the recognised set gives the variant
  \<open>default\<close>, while an urgency that is absent or outside the recognised set gives the
  variant \<open>medium\<close>; both functions only return names of the table.\<close>

theorem badge_variant_fallbacks:
  "badgeVariants Undefined =
     badge_base @ '' '' @ ''border-transparent bg-primary text-primary-foreground hover:bg-primary/80'' \<and>
   Badge cn className Undefined = Badge cn className (Given badge_default_variant) \<and>
   (v \<noteq> [] \<and> map_of badge_variant_table v = Some cls \<longrightarrow>
      badgeVariants (Given v) = badge_base @ '' '' @ cls) \<and>
   getStatusVariant None = badge_default_variant \<and>
   (toLowerCase s \<notin> {''scheduled'', ''confirmed'', ''cancelled'', ''completed'', ''in_progress'', ''checked_in''} \<longrightarrow>
      getStatusVariant (Some s) = badge_default_variant) \<and>
   getPriorityVariant None = ''medium'' \<and>
   (toLowerCase u \<notin> {''urgent'', ''high'', ''medium'', ''low''} \<longrightarrow>
      getPriorityVariant (Some u) = ''medium'') \<and>
   getStatusVariant status \<in> set (map fst badge_variant_table) \<and>
   getPriorityVariant urgency \<in> set (map fst badge_variant_table)"
proof (intro conjI impI)
  show "badgeVariants Undefined =
     badge_base @ '' '' @ ''border-transparent bg-primary text-primary-foreground hover:bg-primary/80''"
    by (simp add: badgeVariants_def badge_default_class)
  show "Badge cn className Undefined = Badge cn className (Given badge_default_variant)"
    by (simp add: Badge_def badgeVariants_Undefined badge_default_variant_def)
  show "badgeVariants (Given v) = badge_base @ '' '' @ cls"
    if "v \<noteq> [] \<and> map_of badge_variant_table v = Some cls"
    using that by (simp add: badgeVariants_Given)
  show "getStatusVariant None = badge_default_variant"
    by (simp add: getStatusVariant_def badge_default_variant_def)
  show "getStatusVariant (Some s) = badge_default_variant"
    if "toLowerCase s \<notin> {''scheduled'', ''confirmed'', ''cancelled'', ''completed'', ''in_progress'', ''checked_in''}"
    using that by (simp add: getStatusVariant_def badge_default_variant_def)
  show "getPriorityVariant None = ''medium''"
    by (simp add: getPriorityVariant_def)
  show "getPriorityVariant (Some u) = ''medium''"
    if "toLowerCase u \<notin> {''urgent'', ''high'', ''medium'', ''low''}"
    using that by (simp add: getPriorityVariant_def)
  show "getStatusVariant status \<in> set (map fst badge_variant_table)"
    using getStatusVariant_range[of status] unfolding badge_variant_names by auto
  show "getPriorityVariant urgency \<in> set (map fst badge_variant_table)"
    using getPriorityVariant_range[of urgency] unfolding badge_variant_names by auto
qed

theorem badge_variant_fallbacks_witness:
  "badgeVariants (Given ''urgent'') = badge_base @ '' '' @ ''border-transparent bg-red-100 text-red-800'' \<and>
   getStatusVariant (Some ''Rescheduled'') = ''default'' \<and>
   getPriorityVariant (Some ''Routine'') = ''medium''"
proof -
  have v: "''urgent'' \<noteq> [] \<and>
      map_of badge_variant_table ''urgent'' = Some ''border-transparent bg-red-100 text-red-800''"
    by (simp add: badge_variant_table_def)
  have s: "toLowerCase ''Rescheduled'' \<notin>
      {''scheduled'', ''confirmed'', ''cancelled'', ''completed'', ''in_progress'', ''checked_in''}"
    by (simp add: toLowerCase_def toLowerCase_char_def)
  have u: "toLowerCase ''Routine'' \<notin> {''urgent'', ''high'', ''medium'', ''low''}"
    by (simp add: toLowerCase_def toLowerCase_char_def)
  from badge_variant_fallbacks[where v = "''urgent''"
      and cls = "''border-transparent bg-red-100 text-red-800''"
      and s = "''Rescheduled''" and u = "''Routine''"] v s u
  show ?thesis by (simp add: badge_default_variant_def)
qed

text \<open>The claim as the specification states it fails for the urgency: an unrecognised
  urgency is shown with the variant \<open>medium\<close>, whose class is not that of \<open>default\<close>.\<close>

theorem priority_fallback_counterexample:
  "getPriorityVariant (Some ''routine'') \<noteq> badge_default_variant \<and>
   badgeVariants (Given (getPriorityVariant (Some ''routine''))) \<noteq> badgeVariants Undefined"
proof -
  have p: "getPriorityVariant (Some ''routine'') = ''medium''"
    by (simp add: getPriorityVariant_def toLowerCase_def toLowerCase_char_def)
  have "badgeVariants (Given ''medium'') \<noteq> badgeVariants Undefined"
    by (simp add: badgeVariants_def badge_default_class badge_medium_class)
  with p show ?thesis by (simp add: badge_default_variant_def)
qed

section \<open>The API client (services/api)\<close>

subsection \<open>JavaScript values\<close>

text \<open>
  Response bodies, query parameters and toast messages are untyped at run time, so they are
  values of a small universe of JavaScript values.  Numbers are the integers (the counters,
  identifiers and status codes the client handles) and \<open>NaN\<close>; fractions are outside it.
\<close>

datatype jsval =
    JUndefined
  | JNull
  | JBool bool
  | JNum int
  | JNaN
  | JStr string
  | JArr "jsval list"
  | JObj "(string \<times> jsval) list"

datatype failure = TypeError | RangeError

text \<open>Truthiness, \<open>a || b\<close>, the property read \<open>v.k\<close> (a \<open>TypeError\<close> on \<open>undefined\<close> and
  \<open>null\<close>) and the optional read \<open>v?.k\<close>.  Own properties of objects only: the keys read by
  the client (\<open>error\<close>, \<open>total\<close>, \<open>scheduled\<close>, \<open>completed\<close>, \<open>items\<close>) are no built-in
  property of a string, an array, a number or a boolean.\<close>

fun truthy :: "jsval \<Rightarrow> bool" where
  "truthy JUndefined = False"
| "truthy JNull = False"
| "truthy (JBool b) = b"
| "truthy (JNum n) = (n \<noteq> 0)"
| "truthy JNaN = False"
| "truthy (JStr s) = (s \<noteq> [])"
| "truthy (JArr xs) = True"
| "truthy (JObj kvs) = True"

definition js_or :: "jsval \<Rightarrow> jsval \<Rightarrow> jsval" where
  "js_or a b = (if truthy a then a else b)"

fun own_prop :: "jsval \<Rightarrow> string \<Rightarrow> jsval" where
  "own_prop (JObj kvs) k = (case map_of kvs k of Some v \<Rightarrow> v | None \<Rightarrow> JUndefined)"
| "own_prop v k = JUndefined"

definition get_prop :: "jsval \<Rightarrow> string \<Rightarrow> failure + jsval" where
  "get_prop v k = (if v = JUndefined \<or> v = JNull then Inl TypeError else Inr (own_prop v k))"

definition opt_prop :: "jsval \<Rightarrow> string \<Rightarrow> jsval" where
  "opt_prop v k = (if v = JUndefined \<or> v = JNull then JUndefined else own_prop v k)"

subsection \<open>Decimal numerals\<close>

definition digit_char :: "nat \<Rightarrow> char" where
  "digit_char n = ''0123456789'' ! (n mod 10)"

fun show_nat :: "nat \<Rightarrow> string" where
  "show_nat n = (if n < 10 then [digit_char n] else show_nat (n div 10) @ [digit_char n])"

declare show_nat.simps [simp del]

definition show_int :: "int \<Rightarrow> string" where
  "show_int i = (if i < 0 then CHR ''-'' # show_nat (nat (- i)) else show_nat (nat i))"

text \<open>Reading digits, in a radix up to 16: the value of a digit, whether a character is a
  digit of the radix, and the value of a run of digits.\<close>

definition digit_value :: "char \<Rightarrow> nat option" where
  "digit_value c =
     map_of (zip ''0123456789abcdefABCDEF''
               [0, 1, 2, 3, 4, 5, 6, 7, 8, 9, 10, 11, 12, 13, 14, 15, 10, 11, 12, 13, 14, 15]) c"

definition in_radix :: "nat \<Rightarrow> char \<Rightarrow> bool" where
  "in_radix r c = (case digit_value c of None \<Rightarrow> False | Some v \<Rightarrow> v < r)"

definition radix_value :: "nat \<Rightarrow> string \<Rightarrow> nat" where
  "radix_value r ds = foldl (\<lambda>acc c. acc * r + (case digit_value c of None \<Rightarrow> 0 | Some v \<Rightarrow> v)) 0 ds"

subsection \<open>Browser state, requests and responses\<close>

text \<open>
  The client runs in a browser (\<open>window\<close> is defined: it has a \<open>localStorage\<close> and a
  location) or on the server that pre-renders the pages (\<open>typeof window === 'undefined'\<close>).
  The notifications raised with \<open>toast.error\<close> are collected in order, latest first.
\<close>

record browser =
  localStorage :: "string \<rightharpoonup> string"
  location_href :: string

record client =
  window :: "browser option"
  toasts :: "jsval list"

datatype http_method = GET | POST | PUT | DELETE

record request =
  req_method :: http_method
  req_url :: string
  req_params :: "(string \<times> jsval) list"
  req_body :: jsval
  req_headers :: "string \<rightharpoonup> string"

record http_response =
  resp_status :: int
  resp_data :: jsval

record axios_error =
  err_code :: "string option"
  err_message :: string
  err_response :: "http_response option"

text \<open>What the transport of the HTTP library reports for one request: a reply with a status
  and a body, or no reply at all (a network failure, or the 30 second \<open>timeout\<close> of the
  instance, which the library reports with code \<open>ECONNABORTED\<close>).\<close>

datatype adapter_result = HttpReply http_response | NoReply "string option" string

type_synonym adapter = "request \<Rightarrow> adapter_result"

definition api_defaults :: "http_method \<Rightarrow> string \<Rightarrow> (string \<times> jsval) list \<Rightarrow> jsval \<Rightarrow> request" where
  "api_defaults m url params body =
     \<lparr>req_method = m, req_url = url, req_params = params, req_body = body,
      req_headers = [''Content-Type'' \<mapsto> ''application/json'']\<rparr>"

subsection \<open>Interceptors\<close>

definition request_interceptor :: "client \<Rightarrow> request \<Rightarrow> request" where
  "request_interceptor c config =
     (let token = (case window c of None \<Rightarrow> None | Some w \<Rightarrow> localStorage w ''auth_token'')
      in case token of
           None \<Rightarrow> config
         | Some t \<Rightarrow>
             if t \<noteq> [] then config\<lparr>req_headers := (req_headers config)(''Authorization'' \<mapsto> ''Bearer '' @ t)\<rparr>
             else config)"

definition toast_error :: "jsval \<Rightarrow> client \<Rightarrow> client" where
  "toast_error msg c = c\<lparr>toasts := msg # toasts c\<rparr>"

text \<open>The rejection handler of the response interceptor.  It returns the client after its
  side effects; the handler itself always ends in \<open>Promise.reject(error)\<close>, which
  \<open>api_request\<close> below passes on.\<close>

definition response_rejected :: "axios_error \<Rightarrow> client \<Rightarrow> client" where
  "response_rejected error c =
     (let st = map_option resp_status (err_response error) in
      if st = Some 401 then
        (case window c of
           None \<Rightarrow> c
         | Some w \<Rightarrow>
             c\<lparr>window := Some (w\<lparr>localStorage := (localStorage w)(''auth_token'' := None),
                                  location_href := ''/login''\<rparr>)\<rparr>)
      else if st = Some 403 then toast_error (JStr ''Access forbidden'') c
      else if st = Some 404 then toast_error (JStr ''Resource not found'') c
      else if (case st of None \<Rightarrow> False | Some n \<Rightarrow> n \<ge> 500) then
        toast_error (JStr ''Server error. Please try again later.'') c
      else if err_code error = Some ''ECONNABORTED'' then
        toast_error (JStr ''Request timeout. Please try again.'') c
      else
        (let message =
           js_or (case err_response error of
                    None \<Rightarrow> JUndefined
                  | Some r \<Rightarrow> opt_prop (resp_data r) ''error'')
             (js_or (JStr (err_message error)) (JStr ''An error occurred''))
         in toast_error message c))"

text \<open>The library settles a reply with its default \<open>validateStatus\<close>: a status from 200 to
  299 resolves, every other status rejects with an error that carries the response (with the
  code and the message that version 1 of the library gives it).\<close>

definition settle_error :: "http_response \<Rightarrow> axios_error" where
  "settle_error r =
     \<lparr>err_code =
        (if 400 \<le> resp_status r \<and> resp_status r < 500 then Some ''ERR_BAD_REQUEST''
         else if 500 \<le> resp_status r \<and> resp_status r < 600 then Some ''ERR_BAD_RESPONSE''
         else None),
      err_message = ''Request failed with status code '' @ show_int (resp_status r),
      err_response = Some r\<rparr>"

definition dispatch :: "adapter \<Rightarrow> request \<Rightarrow> client \<Rightarrow> adapter_result" where
  "dispatch transport config c = transport (request_interceptor c config)"

definition receive :: "adapter_result \<Rightarrow> client \<Rightarrow> client \<times> (axios_error + http_response)" where
  "receive outcome c =
     (case outcome of
        HttpReply r \<Rightarrow>
          if 200 \<le> resp_status r \<and> resp_status r < 300 then (c, Inr r)
          else (response_rejected (settle_error r) c, Inl (settle_error r))
      | NoReply code msg \<Rightarrow>
          (let e = \<lparr>err_code = code, err_message = msg, err_response = None\<rparr>
           in (response_rejected e c, Inl e)))"

definition api_request :: "adapter \<Rightarrow> request \<Rightarrow> client \<Rightarrow> client \<times> (axios_error + http_response)" where
  "api_request transport config c = receive (dispatch transport config c) c"

subsection \<open>The call groups\<close>

text \<open>
  Every exported function of the five call groups is one constructor, with the arguments of
  the function; \<open>request_of\<close> is the request it hands to the shared instance \<open>api\<close>.  An
  identifier is a number and is printed into the path; an optional argument that is left out
  is \<open>undefined\<close> (\<open>None\<close>, or the empty parameter object).
\<close>

type_synonym query = "(string \<times> jsval) list"

datatype health_call = Health_check | Health_info

datatype patient_call =
    Patient_getAll query
  | Patient_getById int
  | Patient_create jsval
  | Patient_update int jsval
  | Patient_delete int
  | Patient_search query
  | Patient_getByMrn string
  | Patient_getSummary int
  | Patient_reactivate int

datatype appointment_call =
    Appointment_getAll query
  | Appointment_getById int
  | Appointment_create jsval
  | Appointment_update int jsval
  | Appointment_cancel int "string option"
  | Appointment_checkConflicts jsval
  | Appointment_getProviderAvailability int string string
  | Appointment_checkIn int
  | Appointment_start int
  | Appointment_complete int "string option"
  | Appointment_markNoShow int
  | Appointment_getTodayOverview

datatype provider_call =
    Provider_getAll query
  | Provider_getById int
  | Provider_create jsval
  | Provider_update int jsval
  | Provider_getBySpecialty string
  | Provider_getSchedule int string string
  | Provider_getAvailability int string string
  | Provider_getWorkload int string string

datatype clinical_call =
    Clinical_getAll query
  | Clinical_getById int
  | Clinical_create jsval
  | Clinical_update int jsval
  | Clinical_delete int
  | Clinical_getPatientHistory int
  | Clinical_getPatientTimeline int
  | Clinical_getByType string
  | Clinical_createVitalSigns jsval
  | Clinical_createDiagnosis jsval
  | Clinical_createPrescription jsval
  | Clinical_getPatientAllergies int
  | Clinical_getPatientMedications int
  | Clinical_getPatientDiagnoses int
  | Clinical_getLatestVitalSigns int
  | Clinical_markAsReviewed int
  | Clinical_getSummaryStats

datatype api_call =
    HealthApi health_call
  | PatientApi patient_call
  | AppointmentApi appointment_call
  | ProviderApi provider_call
  | ClinicalRecordApi clinical_call

definition opt_str :: "string option \<Rightarrow> jsval" where
  "opt_str x = (case x of None \<Rightarrow> JUndefined | Some s \<Rightarrow> JStr s)"

definition date_range_params :: "string \<Rightarrow> string \<Rightarrow> query" where
  "date_range_params startDate endDate = [(''start_date'', JStr startDate), (''end_date'', JStr endDate)]"

fun health_request :: "health_call \<Rightarrow> request" where
  "health_request Health_check = api_defaults GET ''/api/v1/health'' [] JUndefined"
| "health_request Health_info = api_defaults GET ''/api/v1/info'' [] JUndefined"

fun patient_request :: "patient_call \<Rightarrow> request" where
  "patient_request (Patient_getAll params) = api_defaults GET ''/api/v1/patients'' params JUndefined"
| "patient_request (Patient_getById i) = api_defaults GET (''/api/v1/patients/'' @ show_int i) [] JUndefined"
| "patient_request (Patient_create d) = api_defaults POST ''/api/v1/patients'' [] d"
| "patient_request (Patient_update i d) = api_defaults PUT (''/api/v1/patients/'' @ show_int i) [] d"
| "patient_request (Patient_delete i) = api_defaults DELETE (''/api/v1/patients/'' @ show_int i) [] JUndefined"
| "patient_request (Patient_search params) = api_defaults GET ''/api/v1/patients/search'' params JUndefined"
| "patient_request (Patient_getByMrn mrn) = api_defaults GET (''/api/v1/patients/mrn/'' @ mrn) [] JUndefined"
| "patient_request (Patient_getSummary i) =
     api_defaults GET (''/api/v1/patients/'' @ show_int i @ ''/summary'') [] JUndefined"
| "patient_request (Patient_reactivate i) =
     api_defaults POST (''/api/v1/patients/'' @ show_int i @ ''/reactivate'') [] JUndefined"

fun appointment_request :: "appointment_call \<Rightarrow> request" where
  "appointment_request (Appointment_getAll params) = api_defaults GET ''/api/v1/appointments'' params JUndefined"
| "appointment_request (Appointment_getById i) =
     api_defaults GET (''/api/v1/appointments/'' @ show_int i) [] JUndefined"
| "appointment_request (Appointment_create d) = api_defaults POST ''/api/v1/appointments'' [] d"
| "appointment_request (Appointment_update i d) =
     api_defaults PUT (''/api/v1/appointments/'' @ show_int i) [] d"
| "appointment_request (Appointment_cancel i reason) =
     api_defaults DELETE (''/api/v1/appointments/'' @ show_int i) [(''reason'', opt_str reason)] JUndefined"
| "appointment_request (Appointment_checkConflicts d) =
     api_defaults POST ''/api/v1/appointments/check-conflicts'' [] d"
| "appointment_request (Appointment_getProviderAvailability providerId startDate endDate) =
     api_defaults GET (''/api/v1/appointments/provider/'' @ show_int providerId @ ''/availability'')
       (date_range_params startDate endDate) JUndefined"
| "appointment_request (Appointment_checkIn i) =
     api_defaults POST (''/api/v1/appointments/'' @ show_int i @ ''/check-in'') [] JUndefined"
| "appointment_request (Appointment_start i) =
     api_defaults POST (''/api/v1/appointments/'' @ show_int i @ ''/start'') [] JUndefined"
| "appointment_request (Appointment_complete i notes) =
     api_defaults POST (''/api/v1/appointments/'' @ show_int i @ ''/complete'') [(''notes'', opt_str notes)] JNull"
| "appointment_request (Appointment_markNoShow i) =
     api_defaults POST (''/api/v1/appointments/'' @ show_int i @ ''/no-show'') [] JUndefined"
| "appointment_request Appointment_getTodayOverview =
     api_defaults GET ''/api/v1/appointments/today/overview'' [] JUndefined"

fun provider_request :: "provider_call \<Rightarrow> request" where
  "provider_request (Provider_getAll params) = api_defaults GET ''/api/v1/providers'' params JUndefined"
| "provider_request (Provider_getById i) = api_defaults GET (''/api/v1/providers/'' @ show_int i) [] JUndefined"
| "provider_request (Provider_create d) = api_defaults POST ''/api/v1/providers'' [] d"
| "provider_request (Provider_update i d) = api_defaults PUT (''/api/v1/providers/'' @ show_int i) [] d"
| "provider_request (Provider_getBySpecialty specialty) =
     api_defaults GET (''/api/v1/providers/specialty/'' @ specialty) [] JUndefined"
| "provider_request (Provider_getSchedule i startDate endDate) =
     api_defaults GET (''/api/v1/providers/'' @ show_int i @ ''/schedule'')
       (date_range_params startDate endDate) JUndefined"
| "provider_request (Provider_getAvailability i startDate endDate) =
     api_defaults GET (''/api/v1/providers/'' @ show_int i @ ''/availability'')
       (date_range_params startDate endDate) JUndefined"
| "provider_request (Provider_getWorkload i startDate endDate) =
     api_defaults GET (''/api/v1/providers/'' @ show_int i @ ''/workload'')
       (date_range_params startDate endDate) JUndefined"

fun clinical_request :: "clinical_call \<Rightarrow> request" where
  "clinical_request (Clinical_getAll params) = api_defaults GET ''/api/v1/clinical-records'' params JUndefined"
| "clinical_request (Clinical_getById i) =
     api_defaults GET (''/api/v1/clinical-records/'' @ show_int i) [] JUndefined"
| "clinical_request (Clinical_create d) = api_defaults POST ''/api/v1/clinical-records'' [] d"
| "clinical_request (Clinical_update i d) =
     api_defaults PUT (''/api/v1/clinical-records/'' @ show_int i) [] d"
| "clinical_request (Clinical_delete i) =
     api_defaults DELETE (''/api/v1/clinical-records/'' @ show_int i) [] JUndefined"
| "clinical_request (Clinical_getPatientHistory patientId) =
     api_defaults GET (''/api/v1/clinical-records/patient/'' @ show_int patientId @ ''/history'') [] JUndefined"
| "clinical_request (Clinical_getPatientTimeline patientId) =
     api_defaults GET (''/api/v1/clinical-records/patient/'' @ show_int patientId @ ''/timeline'') [] JUndefined"
| "clinical_request (Clinical_getByType recordType) =
     api_defaults GET (''/api/v1/clinical-records/type/'' @ recordType) [] JUndefined"
| "clinical_request (Clinical_createVitalSigns d) =
     api_defaults POST ''/api/v1/clinical-records/vital-signs'' [] d"
| "clinical_request (Clinical_createDiagnosis d) =
     api_defaults POST ''/api/v1/clinical-records/diagnosis'' [] d"
| "clinical_request (Clinical_createPrescription d) =
     api_defaults POST ''/api/v1/clinical-records/prescription'' [] d"
| "clinical_request (Clinical_getPatientAllergies patientId) =
     api_defaults GET (''/api/v1/clinical-records/patient/'' @ show_int patientId @ ''/allergies'') [] JUndefined"
| "clinical_request (Clinical_getPatientMedications patientId) =
     api_defaults GET (''/api/v1/clinical-records/patient/'' @ show_int patientId @ ''/medications'') [] JUndefined"
| "clinical_request (Clinical_getPatientDiagnoses patientId) =
     api_defaults GET (''/api/v1/clinical-records/patient/'' @ show_int patientId @ ''/diagnoses'') [] JUndefined"
| "clinical_request (Clinical_getLatestVitalSigns patientId) =
     api_defaults GET (''/api/v1/clinical-records/patient/'' @ show_int patientId @ ''/vital-signs/latest'') [] JUndefined"
| "clinical_request (Clinical_markAsReviewed i) =
     api_defaults POST (''/api/v1/clinical-records/'' @ show_int i @ ''/review'') [] JUndefined"
| "clinical_request Clinical_getSummaryStats =
     api_defaults GET ''/api/v1/clinical-records/stats/summary'' [] JUndefined"

fun request_of :: "api_call \<Rightarrow> request" where
  "request_of (HealthApi x) = health_request x"
| "request_of (PatientApi x) = patient_request x"
| "request_of (AppointmentApi x) = appointment_request x"
| "request_of (ProviderApi x) = provider_request x"
| "request_of (ClinicalRecordApi x) = clinical_request x"

text \<open>The three functions declared \<open>Promise<void>\<close> await the request and return nothing;
  every other function returns \<open>response.data\<close>.\<close>

fun returns_void :: "api_call \<Rightarrow> bool" where
  "returns_void (PatientApi (Patient_delete i)) = True"
| "returns_void (AppointmentApi (Appointment_cancel i reason)) = True"
| "returns_void (ClinicalRecordApi (Clinical_delete i)) = True"
| "returns_void x = False"

definition deliver :: "api_call \<Rightarrow> adapter_result \<Rightarrow> client \<Rightarrow> client \<times> (axios_error + jsval)" where
  "deliver call outcome c =
     (case receive outcome c of
        (c', Inl e) \<Rightarrow> (c', Inl e)
      | (c', Inr r) \<Rightarrow> (c', Inr (if returns_void call then JUndefined else resp_data r)))"

definition invoke :: "adapter \<Rightarrow> api_call \<Rightarrow> client \<Rightarrow> client \<times> (axios_error + jsval)" where
  "invoke transport call c = deliver call (dispatch transport (request_of call) c) c"

subsection \<open>dashboardApi.getStats\<close>

text \<open>
  \<open>getStats\<close> starts its three calls together (\<open>Promise.all\<close>), so each request is built
  from the client as it is at the start; the replies are handled here in the order of the
  calls.  The result is rejected with the first failed call, and reading \<open>.total\<close> of a body
  that is \<open>undefined\<close> or \<open>null\<close> throws a \<open>TypeError\<close>.
\<close>

datatype api_failure = Rejected axios_error | Thrown failure

record dashboard_stats =
  total_patients :: jsval
  active_patients :: jsval
  todays_appointments :: jsval
  pending_appointments :: jsval
  completed_appointments :: jsval
  active_providers :: jsval
  recent_activities :: "jsval list"

definition stats_patients_call :: api_call where
  "stats_patients_call = PatientApi (Patient_getAll [(''per_page'', JNum 1)])"

definition stats_overview_call :: api_call where
  "stats_overview_call = AppointmentApi Appointment_getTodayOverview"

definition stats_providers_call :: api_call where
  "stats_providers_call = ProviderApi (Provider_getAll [(''per_page'', JNum 1), (''status'', JStr ''active'')])"

definition build_stats :: "jsval \<Rightarrow> jsval \<Rightarrow> jsval \<Rightarrow> api_failure + dashboard_stats" where
  "build_stats patientsResp appointmentsResp providersResp =
     (case get_prop patientsResp ''total'' of
        Inl x \<Rightarrow> Inl (Thrown x)
      | Inr ptotal \<Rightarrow>
     (case get_prop appointmentsResp ''total'' of
        Inl x \<Rightarrow> Inl (Thrown x)
      | Inr atotal \<Rightarrow>
     (case get_prop appointmentsResp ''scheduled'' of
        Inl x \<Rightarrow> Inl (Thrown x)
      | Inr ascheduled \<Rightarrow>
     (case get_prop appointmentsResp ''completed'' of
        Inl x \<Rightarrow> Inl (Thrown x)
      | Inr acompleted \<Rightarrow>
     (case get_prop providersResp ''total'' of
        Inl x \<Rightarrow> Inl (Thrown x)
      | Inr prtotal \<Rightarrow>
          Inr \<lparr>total_patients = ptotal,
               active_patients = ptotal,
               todays_appointments = js_or atotal (JNum 0),
               pending_appointments = js_or ascheduled (JNum 0),
               completed_appointments = js_or acompleted (JNum 0),
               active_providers = prtotal,
               recent_activities = []\<rparr>)))))"

definition getStats :: "adapter \<Rightarrow> client \<Rightarrow> client \<times> (api_failure + dashboard_stats)" where
  "getStats transport c =
     (let o1 = dispatch transport (request_of stats_patients_call) c;
          o2 = dispatch transport (request_of stats_overview_call) c;
          o3 = dispatch transport (request_of stats_providers_call) c;
          (c1, patientsResp) = deliver stats_patients_call o1 c;
          (c2, appointmentsResp) = deliver stats_overview_call o2 c1;
          (c3, providersResp) = deliver stats_providers_call o3 c2
      in (c3,
          case patientsResp of
            Inl e \<Rightarrow> Inl (Rejected e)
          | Inr p \<Rightarrow>
         (case appointmentsResp of
            Inl e \<Rightarrow> Inl (Rejected e)
          | Inr a \<Rightarrow>
         (case providersResp of
            Inl e \<Rightarrow> Inl (Rejected e)
          | Inr pr \<Rightarrow> build_stats p a pr))))"

subsection \<open>Properties of the interceptors\<close>

lemma receive_failure:
  "\<not> (200 \<le> resp_status r \<and> resp_status r < 300) \<Longrightarrow>
     receive (HttpReply r) c = (response_rejected (settle_error r) c, Inl (settle_error r))"
  by (simp add: receive_def)

lemma receive_no_reply:
  "receive (NoReply code msg) c =
     (response_rejected \<lparr>err_code = code, err_message = msg, err_response = None\<rparr> c,
      Inl \<lparr>err_code = code, err_message = msg, err_response = None\<rparr>)"
  by (simp add: receive_def Let_def)

lemma deliver_failure:
  "receive outcome c = (c', Inl e) \<Longrightarrow> deliver call outcome c = (c', Inl e)"
  by (simp add: deliver_def)

lemma settle_error_response [simp]:
  "err_response (settle_error r) = Some r"
  by (simp add: settle_error_def)

lemma response_rejected_401:
  "err_response e = Some r \<Longrightarrow> resp_status r = 401 \<Longrightarrow> window c = Some w \<Longrightarrow>
     response_rejected e c =
       c\<lparr>window := Some (w\<lparr>localStorage := (localStorage w)(''auth_token'' := None),
                            location_href := ''/login''\<rparr>)\<rparr>"
  by (simp add: response_rejected_def)

lemma response_rejected_401_server:
  "err_response e = Some r \<Longrightarrow> resp_status r = 401 \<Longrightarrow> window c = None \<Longrightarrow>
     response_rejected e c = c"
  by (simp add: response_rejected_def)

text \<open>Claim C2.  Whatever call of whatever call group is made from a browser, a reply with
  status 401 makes the call reject with the error that carries this reply, removes the item
  \<open>auth_token\<close> from the local storage (and nothing else from it), sets the location to
  \<open>/login\<close>, and raises no notification.\<close>

theorem unauthorized_clears_token_and_redirects:
  assumes "dispatch transport (request_of call) c = HttpReply r"
    and "resp_status r = 401"
    and "window c = Some w"
  shows "\<exists>w'. invoke transport call c = (c\<lparr>window := Some w'\<rparr>, Inl (settle_error r)) \<and>
           err_response (settle_error r) = Some r \<and>
           localStorage w' ''auth_token'' = None \<and>
           (\<forall>k. k \<noteq> ''auth_token'' \<longrightarrow> localStorage w' k = localStorage w k) \<and>
           location_href w' = ''/login''"
proof -
  let ?w = "w\<lparr>localStorage := (localStorage w)(''auth_token'' := None), location_href := ''/login''\<rparr>"
  have "receive (HttpReply r) c = (response_rejected (settle_error r) c, Inl (settle_error r))"
    using assms(2) by (simp add: receive_failure)
  moreover have "response_rejected (settle_error r) c = c\<lparr>window := Some ?w\<rparr>"
    using assms(2,3) by (simp add: response_rejected_401)
  ultimately have "invoke transport call c = (c\<lparr>window := Some ?w\<rparr>, Inl (settle_error r))"
    using assms(1) by (simp add: invoke_def deliver_failure)
  then show ?thesis by (intro exI[of _ ?w]) simp
qed

theorem unauthorized_clears_token_and_redirects_witness:
  "\<exists>w'. invoke (\<lambda>q. HttpReply \<lparr>resp_status = 401, resp_data = JNull\<rparr>)
            (PatientApi (Patient_getById 7))
            \<lparr>window = Some \<lparr>localStorage = [''auth_token'' \<mapsto> ''t0k'', ''theme'' \<mapsto> ''dark''],
                             location_href = ''/patients/7''\<rparr>,
             toasts = []\<rparr>
          = (\<lparr>window = Some w', toasts = []\<rparr>,
             Inl (settle_error \<lparr>resp_status = 401, resp_data = JNull\<rparr>)) \<and>
         localStorage w' ''auth_token'' = None \<and>
         localStorage w' ''theme'' = Some ''dark'' \<and>
         location_href w' = ''/login''"
proof -
  let ?T = "\<lambda>q::request. HttpReply \<lparr>resp_status = 401, resp_data = JNull\<rparr>"
  let ?W = "\<lparr>localStorage = [''auth_token'' \<mapsto> ''t0k'', ''theme'' \<mapsto> ''dark''],
            location_href = ''/patients/7''\<rparr>"
  let ?C = "\<lparr>window = Some ?W, toasts = []\<rparr>"
  have 1: "dispatch ?T (request_of (PatientApi (Patient_getById 7))) ?C
             = HttpReply \<lparr>resp_status = 401, resp_data = JNull\<rparr>"
    by (simp add: dispatch_def)
  have 2: "resp_status \<lparr>resp_status = 401, resp_data = JNull\<rparr> = 401" by simp
  have 3: "window ?C = Some ?W" by simp
  from unauthorized_clears_token_and_redirects[OF 1 2 3]
  obtain w' where
    "invoke ?T (PatientApi (Patient_getById 7)) ?C
       = (?C\<lparr>window := Some w'\<rparr>, Inl (settle_error \<lparr>resp_status = 401, resp_data = JNull\<rparr>))"
    "localStorage w' ''auth_token'' = None"
    "\<forall>k. k \<noteq> ''auth_token'' \<longrightarrow> localStorage w' k = localStorage ?W k"
    "location_href w' = ''/login''"
    by blast
  then show ?thesis by (intro exI[of _ w']) simp
qed

text \<open>On the server, where \<open>window\<close> is undefined, the guard of the handler skips both
  effects: the call is rejected and the client is as before.\<close>

lemma unauthorized_on_server:
  assumes "dispatch transport (request_of call) c = HttpReply r"
    and "resp_status r = 401"
    and "window c = None"
  shows "invoke transport call c = (c, Inl (settle_error r))"
proof -
  have "receive (HttpReply r) c = (response_rejected (settle_error r) c, Inl (settle_error r))"
    using assms(2) by (simp add: receive_failure)
  moreover have "response_rejected (settle_error r) c = c"
    using assms(2,3) by (simp add: response_rejected_401_server)
  ultimately show ?thesis
    using assms(1) by (simp add: invoke_def deliver_failure)
qed

lemma settle_error_code_not_timeout:
  "err_code (settle_error r) \<noteq> Some ''ECONNABORTED''"
  by (simp add: settle_error_def)

lemma settle_error_message_truthy:
  "truthy (JStr (err_message (settle_error r)))"
  by (simp add: settle_error_def)

lemma response_rejected_403:
  "err_response e = Some r \<Longrightarrow> resp_status r = 403 \<Longrightarrow>
     response_rejected e c = toast_error (JStr ''Access forbidden'') c"
  by (simp add: response_rejected_def)

lemma response_rejected_404:
  "err_response e = Some r \<Longrightarrow> resp_status r = 404 \<Longrightarrow>
     response_rejected e c = toast_error (JStr ''Resource not found'') c"
  by (simp add: response_rejected_def)

lemma response_rejected_5xx:
  "err_response e = Some r \<Longrightarrow> 500 \<le> resp_status r \<Longrightarrow>
     response_rejected e c = toast_error (JStr ''Server error. Please try again later.'') c"
  by (simp add: response_rejected_def)

lemma response_rejected_timeout:
  "err_response e = None \<Longrightarrow> err_code e = Some ''ECONNABORTED'' \<Longrightarrow>
     response_rejected e c = toast_error (JStr ''Request timeout. Please try again.'') c"
  by (simp add: response_rejected_def)

lemma response_rejected_other_reply:
  assumes "err_response e = Some r"
    and "resp_status r \<noteq> 401" "resp_status r \<noteq> 403" "resp_status r \<noteq> 404" "resp_status r < 500"
    and "err_code e \<noteq> Some ''ECONNABORTED''"
  shows "response_rejected e c =
           toast_error (js_or (opt_prop (resp_data r) ''error'')
                          (js_or (JStr (err_message e)) (JStr ''An error occurred''))) c"
  using assms by (simp add: response_rejected_def)

lemma response_rejected_other_no_reply:
  assumes "err_response e = None" and "err_code e \<noteq> Some ''ECONNABORTED''"
  shows "response_rejected e c =
           toast_error (js_or (JStr (err_message e)) (JStr ''An error occurred'')) c"
  using assms by (simp add: response_rejected_def js_or_def)

lemma invoke_reply_failure:
  "dispatch transport (request_of call) c = HttpReply r \<Longrightarrow>
   \<not> (200 \<le> resp_status r \<and> resp_status r < 300) \<Longrightarrow>
     invoke transport call c = (response_rejected (settle_error r) c, Inl (settle_error r))"
  by (simp add: invoke_def deliver_failure receive_failure)

lemma invoke_no_reply:
  "dispatch transport (request_of call) c = NoReply code msg \<Longrightarrow>
     invoke transport call c =
       (response_rejected \<lparr>err_code = code, err_message = msg, err_response = None\<rparr> c,
        Inl \<lparr>err_code = code, err_message = msg, err_response = None\<rparr>)"
  by (simp add: invoke_def deliver_failure receive_no_reply)

text \<open>Claim C5.  For every call of every call group: a reply with status 403, with status
  404 or with a status of 500 and above, and a request that timed out, each raise one
  notification with the fixed message of that class; every other failure (a reply with
  another status outside 200 to 299 and other than 401, or no reply for another reason than
  the timeout) raises one notification with the \<open>error\<close> field of the reply's body when that
  field is there and truthy, and with the error's own message otherwise; and in each case
  the call rejects with the error.\<close>

theorem failed_call_notifies_and_rejects:
  assumes "dispatch transport (request_of call) c = outcome"
  shows
   "(outcome = HttpReply r \<and> resp_status r = 403 \<longrightarrow>
       invoke transport call c = (toast_error (JStr ''Access forbidden'') c, Inl (settle_error r))) \<and>
    (outcome = HttpReply r \<and> resp_status r = 404 \<longrightarrow>
       invoke transport call c = (toast_error (JStr ''Resource not found'') c, Inl (settle_error r))) \<and>
    (outcome = HttpReply r \<and> 500 \<le> resp_status r \<longrightarrow>
       invoke transport call c =
         (toast_error (JStr ''Server error. Please try again later.'') c, Inl (settle_error r))) \<and>
    (outcome = NoReply (Some ''ECONNABORTED'') msg \<longrightarrow>
       invoke transport call c =
         (toast_error (JStr ''Request timeout. Please try again.'') c,
          Inl \<lparr>err_code = Some ''ECONNABORTED'', err_message = msg, err_response = None\<rparr>)) \<and>
    (outcome = HttpReply r \<and> \<not> (200 \<le> resp_status r \<and> resp_status r < 300) \<and>
     resp_status r \<notin> {401, 403, 404} \<and> resp_status r < 500 \<and>
     truthy (opt_prop (resp_data r) ''error'') \<longrightarrow>
       invoke transport call c =
         (toast_error (opt_prop (resp_data r) ''error'') c, Inl (settle_error r))) \<and>
    (outcome = HttpReply r \<and> \<not> (200 \<le> resp_status r \<and> resp_status r < 300) \<and>
     resp_status r \<notin> {401, 403, 404} \<and> resp_status r < 500 \<and>
     \<not> truthy (opt_prop (resp_data r) ''error'') \<longrightarrow>
       invoke transport call c =
         (toast_error (JStr (err_message (settle_error r))) c, Inl (settle_error r))) \<and>
    (outcome = NoReply code msg \<and> code \<noteq> Some ''ECONNABORTED'' \<and> msg \<noteq> [] \<longrightarrow>
       invoke transport call c =
         (toast_error (JStr msg) c,
          Inl \<lparr>err_code = code, err_message = msg, err_response = None\<rparr>))"
proof (intro conjI impI)
  assume h: "outcome = HttpReply r \<and> resp_status r = 403"
  with assms show "invoke transport call c = (toast_error (JStr ''Access forbidden'') c, Inl (settle_error r))"
    by (simp add: invoke_reply_failure response_rejected_403)
next
  assume h: "outcome = HttpReply r \<and> resp_status r = 404"
  with assms show "invoke transport call c = (toast_error (JStr ''Resource not found'') c, Inl (settle_error r))"
    by (simp add: invoke_reply_failure response_rejected_404)
next
  assume h: "outcome = HttpReply r \<and> 500 \<le> resp_status r"
  with assms show "invoke transport call c =
         (toast_error (JStr ''Server error. Please try again later.'') c, Inl (settle_error r))"
    by (simp add: invoke_reply_failure response_rejected_5xx)
next
  assume h: "outcome = NoReply (Some ''ECONNABORTED'') msg"
  with assms show "invoke transport call c =
         (toast_error (JStr ''Request timeout. Please try again.'') c,
          Inl \<lparr>err_code = Some ''ECONNABORTED'', err_message = msg, err_response = None\<rparr>)"
    by (simp add: invoke_no_reply response_rejected_timeout)
next
  assume h: "outcome = HttpReply r \<and> \<not> (200 \<le> resp_status r \<and> resp_status r < 300) \<and>
     resp_status r \<notin> {401, 403, 404} \<and> resp_status r < 500 \<and>
     truthy (opt_prop (resp_data r) ''error'')"
  then have "response_rejected (settle_error r) c = toast_error (opt_prop (resp_data r) ''error'') c"
    by (simp add: response_rejected_other_reply settle_error_code_not_timeout js_or_def)
  with assms h show "invoke transport call c =
         (toast_error (opt_prop (resp_data r) ''error'') c, Inl (settle_error r))"
    by (simp add: invoke_reply_failure)
next
  assume h: "outcome = HttpReply r \<and> \<not> (200 \<le> resp_status r \<and> resp_status r < 300) \<and>
     resp_status r \<notin> {401, 403, 404} \<and> resp_status r < 500 \<and>
     \<not> truthy (opt_prop (resp_data r) ''error'')"
  then have "response_rejected (settle_error r) c =
      toast_error (JStr (err_message (settle_error r))) c"
    using settle_error_message_truthy[of r]
    by (simp add: response_rejected_other_reply settle_error_code_not_timeout js_or_def)
  with assms h show "invoke transport call c =
         (toast_error (JStr (err_message (settle_error r))) c, Inl (settle_error r))"
    by (simp add: invoke_reply_failure)
next
  assume h: "outcome = NoReply code msg \<and> code \<noteq> Some ''ECONNABORTED'' \<and> msg \<noteq> []"
  then have "response_rejected \<lparr>err_code = code, err_message = msg, err_response = None\<rparr> c =
      toast_error (JStr msg) c"
    by (simp add: response_rejected_other_no_reply js_or_def)
  with assms h show "invoke transport call c =
         (toast_error (JStr msg) c,
          Inl \<lparr>err_code = code, err_message = msg, err_response = None\<rparr>)"
    by (simp add: invoke_no_reply)
qed

theorem failed_call_notifies_and_rejects_witness:
  "invoke (\<lambda>q. HttpReply \<lparr>resp_status = 403, resp_data = JNull\<rparr>)
     (ProviderApi (Provider_getById 3)) \<lparr>window = None, toasts = []\<rparr>
     = (\<lparr>window = None, toasts = [JStr ''Access forbidden'']\<rparr>,
        Inl (settle_error \<lparr>resp_status = 403, resp_data = JNull\<rparr>)) \<and>
   invoke (\<lambda>q. HttpReply \<lparr>resp_status = 422, resp_data = JObj [(''error'', JStr ''Email already registered'')]\<rparr>)
     (PatientApi (Patient_create JNull)) \<lparr>window = None, toasts = []\<rparr>
     = (\<lparr>window = None, toasts = [JStr ''Email already registered'']\<rparr>,
        Inl (settle_error \<lparr>resp_status = 422, resp_data = JObj [(''error'', JStr ''Email already registered'')]\<rparr>)) \<and>
   invoke (\<lambda>q. NoReply (Some ''ECONNABORTED'') ''timeout of 30000ms exceeded'')
     (AppointmentApi Appointment_getTodayOverview) \<lparr>window = None, toasts = []\<rparr>
     = (\<lparr>window = None, toasts = [JStr ''Request timeout. Please try again.'']\<rparr>,
        Inl \<lparr>err_code = Some ''ECONNABORTED'', err_message = ''timeout of 30000ms exceeded'',
             err_response = None\<rparr>)"
proof -
  let ?c = "\<lparr>window = None, toasts = []\<rparr>"
  let ?r1 = "\<lparr>resp_status = 403, resp_data = JNull\<rparr>"
  let ?r2 = "\<lparr>resp_status = 422, resp_data = JObj [(''error'', JStr ''Email already registered'')]\<rparr>"
  have d1: "dispatch (\<lambda>q. HttpReply ?r1) (request_of (ProviderApi (Provider_getById 3))) ?c = HttpReply ?r1"
    by (simp add: dispatch_def)
  have d2: "dispatch (\<lambda>q. HttpReply ?r2) (request_of (PatientApi (Patient_create JNull))) ?c = HttpReply ?r2"
    by (simp add: dispatch_def)
  have d3: "dispatch (\<lambda>q. NoReply (Some ''ECONNABORTED'') ''timeout of 30000ms exceeded'')
              (request_of (AppointmentApi Appointment_getTodayOverview)) ?c
            = NoReply (Some ''ECONNABORTED'') ''timeout of 30000ms exceeded''"
    by (simp add: dispatch_def)
  have t2: "truthy (opt_prop (resp_data ?r2) ''error'')"
    by (simp add: opt_prop_def)
  from failed_call_notifies_and_rejects[OF d1, of ?r1]
  have 1: "invoke (\<lambda>q. HttpReply ?r1) (ProviderApi (Provider_getById 3)) ?c
            = (toast_error (JStr ''Access forbidden'') ?c, Inl (settle_error ?r1))"
    by simp
  from failed_call_notifies_and_rejects[OF d2, of ?r2] t2
  have 2: "invoke (\<lambda>q. HttpReply ?r2) (PatientApi (Patient_create JNull)) ?c
            = (toast_error (opt_prop (resp_data ?r2) ''error'') ?c, Inl (settle_error ?r2))"
    by simp
  from failed_call_notifies_and_rejects[OF d3, of _ "''timeout of 30000ms exceeded''"]
  have 3: "invoke (\<lambda>q. NoReply (Some ''ECONNABORTED'') ''timeout of 30000ms exceeded'')
              (AppointmentApi Appointment_getTodayOverview) ?c
            = (toast_error (JStr ''Request timeout. Please try again.'') ?c,
               Inl \<lparr>err_code = Some ''ECONNABORTED'', err_message = ''timeout of 30000ms exceeded'',
                    err_response = None\<rparr>)"
    by simp
  from 1 2 3 show ?thesis
    by (simp add: toast_error_def opt_prop_def)
qed

subsection \<open>Properties of the dashboard statistics\<close>

lemma build_stats_Inr:
  assumes "build_stats p a pr = Inr st"
  shows "total_patients st = own_prop p ''total'' \<and> active_patients st = own_prop p ''total'' \<and>
         recent_activities st = []"
  using assms
  by (auto simp: build_stats_def get_prop_def split: if_splits sum.splits)

lemma deliver_Inr:
  assumes "deliver call outcome c = (c', Inr v)"
  shows "\<exists>r. outcome = HttpReply r \<and> 200 \<le> resp_status r \<and> resp_status r < 300 \<and>
             v = (if returns_void call then JUndefined else resp_data r)"
  using assms
  by (cases outcome) (auto simp: deliver_def receive_def Let_def split: if_splits)

text \<open>Claim C10.  Whenever \<open>getStats\<close> returns statistics, \<open>active_patients\<close> is the very
  value of \<open>total_patients\<close>, which is the \<open>total\<close> field of the body that the patients list
  endpoint replied to the request with \<open>per_page = 1\<close> and no other parameter (no filter on
  active patients is sent), and \<open>recent_activities\<close> is the empty list.\<close>

theorem getStats_active_equals_total:
  assumes "getStats transport c = (c', Inr st)"
  shows "active_patients st = total_patients st \<and>
         recent_activities st = [] \<and>
         (\<exists>r. transport (request_interceptor c
                  (api_defaults GET ''/api/v1/patients'' [(''per_page'', JNum 1)] JUndefined))
                = HttpReply r \<and>
              total_patients st = own_prop (resp_data r) ''total'')"
proof -
  obtain c1 r1 where d1:
    "deliver stats_patients_call (dispatch transport (request_of stats_patients_call) c) c = (c1, r1)"
    by (cases "deliver stats_patients_call (dispatch transport (request_of stats_patients_call) c) c")
  obtain c2 r2 where d2:
    "deliver stats_overview_call (dispatch transport (request_of stats_overview_call) c) c1 = (c2, r2)"
    by (cases "deliver stats_overview_call (dispatch transport (request_of stats_overview_call) c) c1")
  obtain c3 r3 where d3:
    "deliver stats_providers_call (dispatch transport (request_of stats_providers_call) c) c2 = (c3, r3)"
    by (cases "deliver stats_providers_call (dispatch transport (request_of stats_providers_call) c) c2")
  from assms d1 d2 d3 obtain p a pr where
    ok: "r1 = Inr p" "r2 = Inr a" "r3 = Inr pr" and b: "build_stats p a pr = Inr st"
    by (auto simp: getStats_def Let_def split: sum.splits)
  from d1 ok(1) obtain r where
    r: "dispatch transport (request_of stats_patients_call) c = HttpReply r" and
    p: "p = resp_data r"
    using deliver_Inr[of stats_patients_call _ c c1 p]
    by (auto simp: stats_patients_call_def)
  from r have "transport (request_interceptor c
                  (api_defaults GET ''/api/v1/patients'' [(''per_page'', JNum 1)] JUndefined))
                = HttpReply r"
    by (simp add: dispatch_def stats_patients_call_def)
  with build_stats_Inr[OF b] p show ?thesis by auto
qed

theorem getStats_active_equals_total_witness:
  "getStats (\<lambda>q. HttpReply \<lparr>resp_status = 200,
                              resp_data = JObj [(''total'', JNum 12), (''completed'', JNum 3)]\<rparr>)
     \<lparr>window = None, toasts = []\<rparr>
   = (\<lparr>window = None, toasts = []\<rparr>,
      Inr \<lparr>total_patients = JNum 12, active_patients = JNum 12, todays_appointments = JNum 12,
           pending_appointments = JNum 0, completed_appointments = JNum 3,
           active_providers = JNum 12, recent_activities = []\<rparr>) \<and>
   active_patients \<lparr>total_patients = JNum 12, active_patients = JNum 12, todays_appointments = JNum 12,
           pending_appointments = JNum 0, completed_appointments = JNum 3,
           active_providers = JNum 12, recent_activities = []\<rparr> = JNum 12"
proof -
  let ?T = "\<lambda>q::request. HttpReply \<lparr>resp_status = 200,
                              resp_data = JObj [(''total'', JNum 12), (''completed'', JNum 3)]\<rparr>"
  let ?st = "\<lparr>total_patients = JNum 12, active_patients = JNum 12, todays_appointments = JNum 12,
           pending_appointments = JNum 0, completed_appointments = JNum 3,
           active_providers = JNum 12, recent_activities = []\<rparr>"
  have g: "getStats ?T \<lparr>window = None, toasts = []\<rparr> = (\<lparr>window = None, toasts = []\<rparr>, Inr ?st)"
    by (simp add: getStats_def dispatch_def deliver_def receive_def build_stats_def get_prop_def
        js_or_def stats_patients_call_def stats_overview_call_def stats_providers_call_def)
  from getStats_active_equals_total[OF g] g show ?thesis by simp
qed

section \<open>JavaScript dates\<close>

text \<open>
  A \<open>Date\<close> holds a time value: the milliseconds since the epoch in UTC, or \<open>NaN\<close> for an
  invalid date (\<open>None\<close> below).  The functions are those of the language specification,
  with its names.  \<open>YearFromTime\<close> is specified there as the largest year whose first day is
  not after the time; here it is computed from an estimate that is corrected by at most one
  year, and \<open>YearFromTime_largest\<close> below shows that this is the specified year.  \<open>MakeDay\<close>
  is specified through a time value on the first day of the month; it is computed here from
  the first day of the year and the days before the month, and \<open>MakeDay_first_of_month\<close>
  shows that this is the specified day.

  The local time zone is the function \<open>LocalTZA(t, isUTC)\<close> of the language specification, a
  parameter \<open>z\<close> of every function that reads or writes local time: \<open>z t True\<close> is the
  offset of local time from UTC, in milliseconds, that is in effect at the UTC time value
  \<open>t\<close>, and \<open>z t False\<close> is the offset that the zone applies to the local time value \<open>t\<close>
  (for a local time that a transition skips or repeats, the offset before the transition).
  The offsets change at the transitions to and from daylight saving time; \<open>fixed_zone c\<close> is
  a zone without transitions, and \<open>fixed_zone 0\<close> is UTC.
\<close>

definition msPerDay :: int where
  "msPerDay = 86400000"

definition Day :: "int \<Rightarrow> int" where
  "Day t = t div msPerDay"

definition TimeWithinDay :: "int \<Rightarrow> int" where
  "TimeWithinDay t = t mod msPerDay"

definition DaysInYear :: "int \<Rightarrow> int" where
  "DaysInYear y =
     (if y mod 4 \<noteq> 0 then 365
      else if y mod 100 \<noteq> 0 then 366
      else if y mod 400 \<noteq> 0 then 365
      else 366)"

definition DayFromYear :: "int \<Rightarrow> int" where
  "DayFromYear y = 365 * (y - 1970) + (y - 1969) div 4 - (y - 1901) div 100 + (y - 1601) div 400"

definition TimeFromYear :: "int \<Rightarrow> int" where
  "TimeFromYear y = msPerDay * DayFromYear y"

definition YearFromTime :: "int \<Rightarrow> int" where
  "YearFromTime t =
     (let d = Day t; y = 1970 + (400 * d) div 146097
      in if d < DayFromYear y then y - 1
         else if DayFromYear (y + 1) \<le> d then y + 1
         else y)"

definition InLeapYear :: "int \<Rightarrow> int" where
  "InLeapYear t = (if DaysInYear (YearFromTime t) = 366 then 1 else 0)"

definition DayWithinYear :: "int \<Rightarrow> int" where
  "DayWithinYear t = Day t - DayFromYear (YearFromTime t)"

definition MonthFromDay :: "int \<Rightarrow> int \<Rightarrow> int" where
  "MonthFromDay l d =
     (if d < 31 then 0
      else if d < 59 + l then 1
      else if d < 90 + l then 2
      else if d < 120 + l then 3
      else if d < 151 + l then 4
      else if d < 181 + l then 5
      else if d < 212 + l then 6
      else if d < 243 + l then 7
      else if d < 273 + l then 8
      else if d < 304 + l then 9
      else if d < 334 + l then 10
      else 11)"

definition month_start :: "int \<Rightarrow> int \<Rightarrow> int" where
  "month_start l m =
     (if m = 0 then 0
      else if m = 1 then 31
      else if m = 2 then 59 + l
      else if m = 3 then 90 + l
      else if m = 4 then 120 + l
      else if m = 5 then 151 + l
      else if m = 6 then 181 + l
      else if m = 7 then 212 + l
      else if m = 8 then 243 + l
      else if m = 9 then 273 + l
      else if m = 10 then 304 + l
      else 334 + l)"

definition MonthFromTime :: "int \<Rightarrow> int" where
  "MonthFromTime t = MonthFromDay (InLeapYear t) (DayWithinYear t)"

definition DateFromTime :: "int \<Rightarrow> int" where
  "DateFromTime t = DayWithinYear t - month_start (InLeapYear t) (MonthFromTime t) + 1"

definition WeekDay :: "int \<Rightarrow> int" where
  "WeekDay t = (Day t + 4) mod 7"

definition leap_flag :: "int \<Rightarrow> int" where
  "leap_flag y = (if DaysInYear y = 366 then 1 else 0)"

definition MakeDay :: "int \<Rightarrow> int \<Rightarrow> int \<Rightarrow> int" where
  "MakeDay year month date =
     (let ym = year + month div 12; mn = month mod 12
      in DayFromYear ym + month_start (leap_flag ym) mn + date - 1)"

definition MakeDate :: "int \<Rightarrow> int \<Rightarrow> int" where
  "MakeDate day time = day * msPerDay + time"

definition HourFromTime :: "int \<Rightarrow> int" where
  "HourFromTime t = (t div 3600000) mod 24"

definition MinFromTime :: "int \<Rightarrow> int" where
  "MinFromTime t = (t div 60000) mod 60"

definition SecFromTime :: "int \<Rightarrow> int" where
  "SecFromTime t = (t div 1000) mod 60"

definition msFromTime :: "int \<Rightarrow> int" where
  "msFromTime t = t mod 1000"

type_synonym zone = "int \<Rightarrow> bool \<Rightarrow> int"

definition fixed_zone :: "int \<Rightarrow> zone" where
  "fixed_zone c = (\<lambda>t isUTC. c)"


definition LocalTime :: "zone \<Rightarrow> int \<Rightarrow> int" where
  "LocalTime z t = t + z t True"

definition UTC :: "zone \<Rightarrow> int \<Rightarrow> int" where
  "UTC z t = t - z t False"

definition maxTime :: int where
  "maxTime = 8640000000000000"

definition TimeClip :: "int \<Rightarrow> int option" where
  "TimeClip t = (if \<bar>t\<bar> > maxTime then None else Some t)"

type_synonym jsdate = "int option"

type_synonym jsnum = "int option"

text \<open>Arithmetic on numbers that may be \<open>NaN\<close>.\<close>

definition num_add :: "jsnum \<Rightarrow> jsnum \<Rightarrow> jsnum" where
  "num_add a b =
     (case a of None \<Rightarrow> None | Some x \<Rightarrow> (case b of None \<Rightarrow> None | Some y \<Rightarrow> Some (x + y)))"

definition num_sub :: "jsnum \<Rightarrow> jsnum \<Rightarrow> jsnum" where
  "num_sub a b =
     (case a of None \<Rightarrow> None | Some x \<Rightarrow> (case b of None \<Rightarrow> None | Some y \<Rightarrow> Some (x - y)))"

subsection \<open>Methods of Date\<close>

definition getFullYear :: "zone \<Rightarrow> jsdate \<Rightarrow> jsnum" where
  "getFullYear z d = map_option (\<lambda>t. YearFromTime (LocalTime z t)) d"

definition getMonth :: "zone \<Rightarrow> jsdate \<Rightarrow> jsnum" where
  "getMonth z d = map_option (\<lambda>t. MonthFromTime (LocalTime z t)) d"

definition getDate :: "zone \<Rightarrow> jsdate \<Rightarrow> jsnum" where
  "getDate z d = map_option (\<lambda>t. DateFromTime (LocalTime z t)) d"

definition getDay :: "zone \<Rightarrow> jsdate \<Rightarrow> jsnum" where
  "getDay z d = map_option (\<lambda>t. WeekDay (LocalTime z t)) d"

definition setDate :: "zone \<Rightarrow> jsdate \<Rightarrow> jsnum \<Rightarrow> jsdate" where
  "setDate z d date =
     (case d of
        None \<Rightarrow> None
      | Some t0 \<Rightarrow>
          (case date of
             None \<Rightarrow> None
           | Some dt \<Rightarrow>
               (let t = LocalTime z t0;
                    newDate = MakeDate (MakeDay (YearFromTime t) (MonthFromTime t) dt) (TimeWithinDay t)
                in TimeClip (UTC z newDate))))"

text \<open>\<open>toISOString\<close> prints the UTC fields, the year with four digits from 0 to 9999 and
  with a sign and six digits otherwise, and throws a \<open>RangeError\<close> on an invalid date.
  \<open>split_T0 s\<close> is \<open>s.split('T')[0]\<close>.\<close>

definition pad :: "nat \<Rightarrow> int \<Rightarrow> string" where
  "pad w n = (let s = show_nat (nat n) in replicate (w - length s) CHR ''0'' @ s)"

definition iso_year :: "int \<Rightarrow> string" where
  "iso_year y =
     (if 0 \<le> y \<and> y \<le> 9999 then pad 4 y
      else if y < 0 then CHR ''-'' # pad 6 (- y)
      else CHR ''+'' # pad 6 y)"

definition toISOString :: "jsdate \<Rightarrow> failure + string" where
  "toISOString d =
     (case d of
        None \<Rightarrow> Inl RangeError
      | Some t \<Rightarrow>
          Inr (iso_year (YearFromTime t) @ ''-'' @ pad 2 (MonthFromTime t + 1) @ ''-'' @
               pad 2 (DateFromTime t) @ ''T'' @ pad 2 (HourFromTime t) @ '':'' @
               pad 2 (MinFromTime t) @ '':'' @ pad 2 (SecFromTime t) @ ''.'' @
               pad 3 (msFromTime t) @ ''Z''))"

definition split_T0 :: "string \<Rightarrow> string" where
  "split_T0 s = takeWhile (\<lambda>c. c \<noteq> CHR ''T'') s"

subsection \<open>The calendar, for comparison\<close>

text \<open>
  The civil calendar as the specification speaks of it: the length of each month, the day
  after a date, and the order of dates.  Months are numbered from 0 as in JavaScript.
\<close>

definition month_length :: "int \<Rightarrow> int \<Rightarrow> int" where
  "month_length l m =
     (if m = 1 then 28 + l
      else if m = 3 \<or> m = 5 \<or> m = 8 \<or> m = 10 then 30
      else 31)"

definition days_in_month :: "int \<Rightarrow> int \<Rightarrow> int" where
  "days_in_month y m = month_length (leap_flag y) m"

definition next_civil :: "int \<times> int \<times> int \<Rightarrow> int \<times> int \<times> int" where
  "next_civil c =
     (case c of (y, m, d) \<Rightarrow>
        if d < days_in_month y m then (y, m, d + 1)
        else if m < 11 then (y, m + 1, 1)
        else (y + 1, 0, 1))"

definition civil :: "int \<Rightarrow> int \<times> int \<times> int" where
  "civil t = (YearFromTime t, MonthFromTime t, DateFromTime t)"

definition civil_le :: "int \<times> int \<times> int \<Rightarrow> int \<times> int \<times> int \<Rightarrow> bool" where
  "civil_le a b =
     (case a of (y, m, d) \<Rightarrow> case b of (y', m', d') \<Rightarrow>
        y < y' \<or> (y = y' \<and> (m < m' \<or> (m = m' \<and> d \<le> d'))))"

subsection \<open>calculateAge\<close>

text \<open>
  The argument is a string or a \<open>Date\<close>.  \<open>new Date(string)\<close> parses the string with the
  implementation's \<open>Date.parse\<close>, which is a parameter here (\<open>None\<close> where the result is
  \<open>NaN\<close>); \<open>new Date()\<close> is the current instant \<open>now\<close>, always a valid time value.  The two
  early returns of the source give 0: for the empty string (the only falsy value of the
  argument's type) and for an invalid date.

  The callers pass \<open>patient.date_of_birth\<close>, a string.  \<open>parse_date_only\<close> is \<open>Date.parse\<close>
  on the date-only form \<open>YYYY-MM-DD\<close> of the language's date-time string format: the
  language specification reads that form as midnight UTC of the day, whatever the local
  time zone is, and gives \<open>NaN\<close> when the month or the day is out of range.  Strings of any
  other form are not modelled: \<open>parse_date_only\<close> gives \<open>None\<close> for them, and nothing is
  stated about them.
\<close>

datatype date_input = DateStr string | DateObj jsdate

definition parse_date_only :: "string \<Rightarrow> int option" where
  "parse_date_only s =
     (case s of
        [y1, y2, y3, y4, s1, m1, m2, s2, d1, d2] \<Rightarrow>
          (if s1 = CHR ''-'' \<and> s2 = CHR ''-'' \<and> list_all is_digit [y1, y2, y3, y4, m1, m2, d1, d2]
           then
             (let y = int (radix_value 10 [y1, y2, y3, y4]);
                  m = int (radix_value 10 [m1, m2]);
                  d = int (radix_value 10 [d1, d2])
              in if 1 \<le> m \<and> m \<le> 12 \<and> 1 \<le> d \<and> d \<le> days_in_month y (m - 1)
                 then TimeClip (MakeDate (MakeDay y (m - 1) d) 0)
                 else None)
           else None)
      | _ \<Rightarrow> None)"

definition new_Date :: "(string \<Rightarrow> int option) \<Rightarrow> date_input \<Rightarrow> jsdate" where
  "new_Date parse x = (case x of DateStr s \<Rightarrow> parse s | DateObj d \<Rightarrow> d)"

text \<open>\<open>a < b\<close> on numbers: false when either is \<open>NaN\<close>.\<close>

definition num_less :: "jsnum \<Rightarrow> jsnum \<Rightarrow> bool" where
  "num_less a b =
     (case a of None \<Rightarrow> False | Some x \<Rightarrow> (case b of None \<Rightarrow> False | Some y \<Rightarrow> x < y))"

definition calculateAge :: "zone \<Rightarrow> (string \<Rightarrow> int option) \<Rightarrow> int \<Rightarrow> date_input \<Rightarrow> jsnum" where
  "calculateAge z parse now birthDate =
     (if birthDate = DateStr [] then Some 0
      else
        (let birth = new_Date parse birthDate;
             today = Some now
         in if birth = None then Some 0
            else
              (let age = num_sub (getFullYear z today) (getFullYear z birth);
                   monthDiff = num_sub (getMonth z today) (getMonth z birth)
               in if num_less monthDiff (Some 0) \<or>
                     (monthDiff = Some 0 \<and> num_less (getDate z today) (getDate z birth))
                  then num_sub age (Some 1)
                  else age)))"

section \<open>The list pages\<close>

subsection \<open>parseInt\<close>

text \<open>\<open>parseInt(s)\<close> without a radix: leading (ASCII) white space is skipped, a sign is read, a
  prefix \<open>0x\<close> or \<open>0X\<close> selects base 16, and the longest run of digits of the base is the
  value; no digit at all gives \<open>NaN\<close>.\<close>

definition is_space :: "char \<Rightarrow> bool" where
  "is_space c \<longleftrightarrow> c \<in> set [CHR '' '', CHR 0x09, CHR 0x0A, CHR 0x0B, CHR 0x0C, CHR 0x0D]"

definition parseInt :: "string \<Rightarrow> jsval" where
  "parseInt s =
     (let s1 = dropWhile is_space s;
          neg = (take 1 s1 = ''-'');
          s2 = (if take 1 s1 = ''-'' \<or> take 1 s1 = ''+'' then drop 1 s1 else s1);
          hex = (take 2 s2 = ''0x'' \<or> take 2 s2 = ''0X'');
          r = (if hex then 16 else 10);
          s3 = (if hex then drop 2 s2 else s2);
          ds = takeWhile (in_radix r) s3
      in if ds = [] then JNaN
         else JNum ((if neg then - 1 else 1) * int (radix_value r ds)))"

subsection \<open>The appointments page\<close>

datatype view_type = DayView | WeekView | ListView


record appointments_page =
  selectedDate :: jsdate
  viewType :: view_type
  statusFilter :: string
  providerFilter :: string

definition appointments_initial :: "int \<Rightarrow> appointments_page" where
  "appointments_initial now =
     \<lparr>selectedDate = Some now, viewType = DayView, statusFilter = ''all'', providerFilter = ''all''\<rparr>"

record date_range =
  start_date :: string
  end_date :: string

definition dateStr :: "appointments_page \<Rightarrow> failure + string" where
  "dateStr s = map_sum id split_T0 (toISOString (selectedDate s))"

definition getDateRange :: "zone \<Rightarrow> appointments_page \<Rightarrow> failure + date_range" where
  "getDateRange z s =
     (let start0 = selectedDate s;
          end0 = selectedDate s;
          (start1, end1) =
            (if viewType s = WeekView then
               (let day = getDay z start0;
                    diff = num_add (num_sub (getDate z start0) day)
                             (if day = Some 0 then Some (- 6) else Some 1);
                    start' = setDate z start0 diff;
                    end' = setDate z end0 (num_add (getDate z start') (Some 6))
                in (start', end'))
             else (start0, setDate z end0 (getDate z start0)))
      in case toISOString start1 of
           Inl e \<Rightarrow> Inl e
         | Inr a \<Rightarrow>
             (case toISOString end1 of
                Inl e \<Rightarrow> Inl e
              | Inr b \<Rightarrow> Inr \<lparr>start_date = split_T0 a, end_date = split_T0 b\<rparr>))"

text \<open>The parameters that \<open>queryFn\<close> hands to \<open>appointmentApi.getAll\<close>.\<close>

definition appointments_params :: "zone \<Rightarrow> appointments_page \<Rightarrow> failure + query" where
  "appointments_params z s =
     (case getDateRange z s of
        Inl e \<Rightarrow> Inl e
      | Inr r \<Rightarrow>
          Inr ([(''start_date'', JStr (start_date r)), (''end_date'', JStr (end_date r))]
               @ (if statusFilter s \<noteq> ''all'' then [(''status'', JStr (statusFilter s))] else [])
               @ (if providerFilter s \<noteq> ''all''
                  then [(''provider_id'', parseInt (providerFilter s))] else [])))"

definition setStatusFilter :: "string \<Rightarrow> appointments_page \<Rightarrow> appointments_page" where
  "setStatusFilter v s = s\<lparr>statusFilter := v\<rparr>"

definition setProviderFilter :: "string \<Rightarrow> appointments_page \<Rightarrow> appointments_page" where
  "setProviderFilter v s = s\<lparr>providerFilter := v\<rparr>"

definition setViewType :: "view_type \<Rightarrow> appointments_page \<Rightarrow> appointments_page" where
  "setViewType v s = s\<lparr>viewType := v\<rparr>"



subsection \<open>The patients page\<close>

record patients_page =
  searchTerm :: string
  searchType :: string
  currentPage :: int
  perPage :: int

definition patients_initial :: patients_page where
  "patients_initial = \<lparr>searchTerm = [], searchType = ''all'', currentPage = 1, perPage = 20\<rparr>"

definition patients_params :: "patients_page \<Rightarrow> query" where
  "patients_params s =
     [(''page'', JNum (currentPage s)), (''per_page'', JNum (perPage s)),
      (''search'', JStr (searchTerm s)), (''search_type'', JStr (searchType s))]"

definition handleSearch :: "string \<Rightarrow> string \<Rightarrow> patients_page \<Rightarrow> patients_page" where
  "handleSearch trm typ s = s\<lparr>searchTerm := trm, searchType := typ, currentPage := 1\<rparr>"

text \<open>The two controls: the search box calls \<open>handleSearch(e.target.value, searchType)\<close>, the
  select calls \<open>handleSearch(searchTerm, e.target.value)\<close>; the pagination buttons set the
  page to the one before or after.\<close>

definition onSearchTermChange :: "string \<Rightarrow> patients_page \<Rightarrow> patients_page" where
  "onSearchTermChange v s = handleSearch v (searchType s) s"

definition onSearchTypeChange :: "string \<Rightarrow> patients_page \<Rightarrow> patients_page" where
  "onSearchTypeChange v s = handleSearch (searchTerm s) v s"

definition setCurrentPage :: "int \<Rightarrow> patients_page \<Rightarrow> patients_page" where
  "setCurrentPage n s = s\<lparr>currentPage := n\<rparr>"

text \<open>The page that a request asks for is its \<open>page\<close> parameter, \<open>undefined\<close> when the
  request names none.\<close>

definition requested_page :: "query \<Rightarrow> jsval" where
  "requested_page params = own_prop (JObj params) ''page''"

subsection \<open>What a list page renders\<close>

text \<open>
  The page reads \<open>data\<close>, \<open>isLoading\<close> and \<open>error\<close> from the query hook and renders one of
  four branches, in the order of the source: the error branch (an early return), the loading
  skeleton, the empty state, the list.  \<open>data?.items.length\<close> is \<open>undefined\<close> when there is no
  data, and throws when the data has no \<open>items\<close>.
\<close>

record query_result =
  q_data :: jsval
  q_isLoading :: bool
  q_error :: "api_failure option"

datatype rendered = ErrorState | LoadingState | EmptyState | ListState "jsval list"

definition items_length :: "jsval \<Rightarrow> failure + jsval" where
  "items_length d =
     (if d = JUndefined \<or> d = JNull then Inr JUndefined
      else case own_prop d ''items'' of
             JUndefined \<Rightarrow> Inl TypeError
           | JNull \<Rightarrow> Inl TypeError
           | JArr xs \<Rightarrow> Inr (JNum (int (length xs)))
           | JStr x \<Rightarrow> Inr (JNum (int (length x)))
           | JObj kvs \<Rightarrow> Inr (own_prop (JObj kvs) ''length'')
           | _ \<Rightarrow> Inr JUndefined)"

definition items_map :: "jsval \<Rightarrow> failure + jsval list" where
  "items_map d =
     (if d = JUndefined \<or> d = JNull then Inr []
      else case own_prop d ''items'' of
             JArr xs \<Rightarrow> Inr xs
           | _ \<Rightarrow> Inl TypeError)"

definition render_list :: "query_result \<Rightarrow> failure + rendered" where
  "render_list q =
     (if q_error q \<noteq> None then Inr ErrorState
      else if q_isLoading q then Inr LoadingState
      else case items_length (q_data q) of
             Inl e \<Rightarrow> Inl e
           | Inr n \<Rightarrow>
               if n = JNum 0 then Inr EmptyState
               else map_sum id ListState (items_map (q_data q)))"

text \<open>The query hook, for the latest fetch of the current key when nothing is cached for
  it: while the fetch is in flight there is no data and \<open>isLoading\<close> holds; a fetch that
  resolved gives its data; a fetch that failed gives its error.\<close>

datatype fetch = InFlight | Resolved jsval | Failed api_failure

definition useQuery :: "fetch \<Rightarrow> query_result" where
  "useQuery f =
     (case f of
        InFlight \<Rightarrow> \<lparr>q_data = JUndefined, q_isLoading = True, q_error = None\<rparr>
      | Resolved d \<Rightarrow> \<lparr>q_data = d, q_isLoading = False, q_error = None\<rparr>
      | Failed e \<Rightarrow> \<lparr>q_data = JUndefined, q_isLoading = False, q_error = Some e\<rparr>)"

section \<open>Properties of the calendar functions\<close>

subsection \<open>Years\<close>

lemma div_lower: "0 < k \<Longrightarrow> k * (x div k) \<le> (x::int)"
proof -
  assume k: "0 < k"
  have "k * (x div k) + x mod k = x" by simp
  moreover have "0 \<le> x mod k" using k by simp
  ultimately show ?thesis by linarith
qed

lemma div_upper: "0 < k \<Longrightarrow> (x::int) < k * (x div k) + k"
proof -
  assume k: "0 < k"
  have "k * (x div k) + x mod k = x" by simp
  moreover have "x mod k < k" using k by simp
  ultimately show ?thesis by linarith
qed

lemma div_step:
  fixes x k :: int
  assumes k: "0 < k"
  shows "(x + 1) div k = (if (x + 1) mod k = 0 then x div k + 1 else x div k)"
proof -
  have r0: "0 \<le> x mod k" and rk: "x mod k < k" using k by simp_all
  show ?thesis
  proof (cases "x mod k + 1 = k")
    case True
    have "k * (x div k) + x mod k = x" by simp
    then have "x + 1 = k * (x div k) + k" using True by linarith
    then have e: "x + 1 = k * (x div k + 1) + 0" by (simp add: distrib_left)
    have "(x + 1) div k = x div k + 1"
      by (rule int_div_pos_eq[OF e]) (use k in simp_all)
    moreover have "(x + 1) mod k = 0"
      by (rule int_mod_pos_eq[OF e]) (use k in simp_all)
    ultimately show ?thesis by simp
  next
    case False
    have "k * (x div k) + x mod k = x" by simp
    then have e: "x + 1 = k * (x div k) + (x mod k + 1)" by linarith
    have b: "0 \<le> x mod k + 1" "x mod k + 1 < k" using r0 rk False by linarith+
    have "(x + 1) div k = x div k"
      by (rule int_div_pos_eq[OF e b])
    moreover have "(x + 1) mod k = x mod k + 1"
      by (rule int_mod_pos_eq[OF e b])
    ultimately show ?thesis using r0 by simp
  qed
qed

lemma DayFromYear_Suc: "DayFromYear (y + 1) = DayFromYear y + DaysInYear y"
proof -
  have m4: "(y - 1968) mod 4 = y mod 4" by algebra
  have m100: "(y - 1900) mod 100 = y mod 100" by algebra
  have m400: "(y - 1600) mod 400 = y mod 400" by algebra
  have a: "(y + 1 - 1969) div 4 = (if y mod 4 = 0 then (y - 1969) div 4 + 1 else (y - 1969) div 4)"
    using div_step[of 4 "y - 1969"] m4 by (simp add: algebra_simps)
  have b: "(y + 1 - 1901) div 100 = (if y mod 100 = 0 then (y - 1901) div 100 + 1 else (y - 1901) div 100)"
    using div_step[of 100 "y - 1901"] m100 by (simp add: algebra_simps)
  have c: "(y + 1 - 1601) div 400 = (if y mod 400 = 0 then (y - 1601) div 400 + 1 else (y - 1601) div 400)"
    using div_step[of 400 "y - 1601"] m400 by (simp add: algebra_simps)
  have d1: "y mod 100 = 0 \<Longrightarrow> y mod 4 = 0"
    using dvd_trans[of 4 100 y] by (simp add: mod_eq_0_iff_dvd)
  have d2: "y mod 400 = 0 \<Longrightarrow> y mod 100 = 0"
    using dvd_trans[of 100 400 y] by (simp add: mod_eq_0_iff_dvd)
  show ?thesis
    unfolding DayFromYear_def DaysInYear_def a b c
    using d1 d2 by auto
qed

lemma year_low_aux:
  fixes n d a b c :: int
  assumes "146097 * n \<le> 400 * d" "4 * a \<le> n" "n + 68 < 100 * b + 100" "400 * c \<le> n + 368"
  shows "365 * (n - 1) + a - b + c \<le> d"
  using assms by simp

lemma year_high_aux:
  fixes n d a b c :: int
  assumes "400 * d < 146097 * n + 146097" "n + 3 < 4 * a + 4" "100 * b \<le> n + 71" "n + 371 < 400 * c + 400"
  shows "d < 365 * (n + 2) + a - b + c"
  using assms by simp

lemma year_estimate_low:
  "DayFromYear (1970 + (400 * d) div 146097 - 1) \<le> d"
proof -
  define n where "n = (400 * d) div 146097"
  have "365 * (n - 1) + n div 4 - (n + 68) div 100 + (n + 368) div 400 \<le> d"
    using div_lower[of 146097 "400 * d"] div_lower[of 4 n] div_upper[of 100 "n + 68"]
      div_lower[of 400 "n + 368"]
    unfolding n_def[symmetric] by (intro year_low_aux) simp_all
  then show ?thesis
    unfolding DayFromYear_def n_def[symmetric] by (simp add: algebra_simps)
qed

lemma year_estimate_high:
  "d < DayFromYear (1970 + (400 * d) div 146097 + 2)"
proof -
  define n where "n = (400 * d) div 146097"
  have "d < 365 * (n + 2) + (n + 3) div 4 - (n + 71) div 100 + (n + 371) div 400"
    using div_upper[of 146097 "400 * d"] div_upper[of 4 "n + 3"] div_lower[of 100 "n + 71"]
      div_upper[of 400 "n + 371"]
    unfolding n_def[symmetric] by (intro year_high_aux) simp_all
  then show ?thesis
    unfolding DayFromYear_def n_def[symmetric] by (simp add: algebra_simps)
qed

lemma YearFromTime_bounds:
  "DayFromYear (YearFromTime t) \<le> Day t \<and> Day t < DayFromYear (YearFromTime t + 1)"
proof -
  define y where "y = 1970 + (400 * Day t) div 146097"
  have lo: "DayFromYear (y - 1) \<le> Day t"
    using year_estimate_low[of "Day t"] by (simp add: y_def)
  have hi: "Day t < DayFromYear (y + 1 + 1)"
    using year_estimate_high[of "Day t"] by (simp add: y_def algebra_simps)
  have Y: "YearFromTime t =
      (if Day t < DayFromYear y then y - 1 else if DayFromYear (y + 1) \<le> Day t then y + 1 else y)"
    by (simp add: YearFromTime_def Let_def y_def)
  show ?thesis
    unfolding Y using lo hi by auto
qed

lemma DaysInYear_cases: "DaysInYear y = 365 \<or> DaysInYear y = 366"
  by (simp add: DaysInYear_def)

lemma DayFromYear_add_nat: "DayFromYear y + 365 * int n \<le> DayFromYear (y + int n)"
proof (induction n)
  case 0
  then show ?case by simp
next
  case (Suc n)
  have "DayFromYear (y + int (Suc n)) = DayFromYear (y + int n) + DaysInYear (y + int n)"
    using DayFromYear_Suc[of "y + int n"] by (simp add: algebra_simps)
  with Suc DaysInYear_cases[of "y + int n"] show ?case by auto
qed

lemma DayFromYear_mono: "y \<le> y' \<Longrightarrow> DayFromYear y \<le> DayFromYear y'"
proof -
  assume "y \<le> y'"
  then obtain n where "y' = y + int n" by (metis zle_iff_zadd)
  with DayFromYear_add_nat[of y n] show ?thesis by simp
qed

lemma YearFromTime_unique:
  assumes "DayFromYear y \<le> Day t" "Day t < DayFromYear (y + 1)"
  shows "YearFromTime t = y"
proof (rule ccontr)
  assume ne: "YearFromTime t \<noteq> y"
  note b = YearFromTime_bounds[of t]
  show False
  proof (cases "YearFromTime t < y")
    case True
    then have "DayFromYear (YearFromTime t + 1) \<le> DayFromYear y"
      by (intro DayFromYear_mono) simp
    with b assms show False by linarith
  next
    case False
    with ne have "DayFromYear (y + 1) \<le> DayFromYear (YearFromTime t)"
      by (intro DayFromYear_mono) simp
    with b assms show False by linarith
  qed
qed

lemma DayWithinYear_bounds:
  "0 \<le> DayWithinYear t \<and> DayWithinYear t < DaysInYear (YearFromTime t)"
  using YearFromTime_bounds[of t] DayFromYear_Suc[of "YearFromTime t"]
  by (simp add: DayWithinYear_def)


text \<open>The computed year is the one the language specification asks for: the largest year
  whose first instant is not after \<open>t\<close>.\<close>

lemma YearFromTime_largest:
  "TimeFromYear (YearFromTime t) \<le> t \<and> (\<forall>y. TimeFromYear y \<le> t \<longrightarrow> y \<le> YearFromTime t)"
proof (intro conjI allI impI)
  have "msPerDay * DayFromYear (YearFromTime t) \<le> msPerDay * Day t"
    using YearFromTime_bounds[of t] by (simp add: msPerDay_def)
  also have "\<dots> \<le> t"
    unfolding Day_def by (rule div_lower) (simp add: msPerDay_def)
  finally show "TimeFromYear (YearFromTime t) \<le> t" by (simp add: TimeFromYear_def)
next
  fix y assume a: "TimeFromYear y \<le> t"
  show "y \<le> YearFromTime t"
  proof (rule ccontr)
    assume "\<not> y \<le> YearFromTime t"
    then have "DayFromYear (YearFromTime t + 1) \<le> DayFromYear y"
      by (intro DayFromYear_mono) simp
    with YearFromTime_bounds[of t] have "Day t + 1 \<le> DayFromYear y" by simp
    then have "msPerDay * (Day t + 1) \<le> msPerDay * DayFromYear y"
      by (simp add: msPerDay_def)
    moreover have "t < msPerDay * Day t + msPerDay"
      unfolding Day_def by (rule div_upper) (simp add: msPerDay_def)
    ultimately show False using a by (simp add: TimeFromYear_def algebra_simps)
  qed
qed

subsection \<open>Months and days of the month\<close>

lemma MonthFromDay_range: "0 \<le> MonthFromDay l d \<and> MonthFromDay l d \<le> 11"
  by (simp add: MonthFromDay_def)

lemma MonthFromTime_range: "0 \<le> MonthFromTime t \<and> MonthFromTime t \<le> 11"
  by (simp add: MonthFromTime_def MonthFromDay_range)

lemma InLeapYear_leap_flag: "InLeapYear t = leap_flag (YearFromTime t)"
  by (simp add: InLeapYear_def leap_flag_def)

lemma InLeapYear_cases: "InLeapYear t = 0 \<or> InLeapYear t = 1"
  by (simp add: InLeapYear_def)

lemma leap_flag_cases: "leap_flag y = 0 \<or> leap_flag y = 1"
  by (simp add: leap_flag_def)

lemma DaysInYear_InLeapYear: "DaysInYear (YearFromTime t) = 365 + InLeapYear t"
  using DaysInYear_cases[of "YearFromTime t"] by (auto simp: InLeapYear_def)

lemma month_cases: "0 \<le> m \<Longrightarrow> m \<le> 11 \<Longrightarrow>
  m = 0 \<or> m = 1 \<or> m = 2 \<or> m = 3 \<or> m = 4 \<or> m = 5 \<or> m = 6 \<or> m = 7 \<or> m = 8 \<or> m = 9 \<or> m = 10 \<or> m = (11::int)"
  by presburger

lemma month_start_next:
  assumes "0 \<le> m" "m < 11"
  shows "month_start l (m + 1) = month_start l m + month_length l m"
  using month_cases[of m] assms
  by (auto simp: month_start_def month_length_def)

lemma month_length_pos: "l = 0 \<or> l = 1 \<Longrightarrow> 28 \<le> month_length l m"
  by (auto simp: month_length_def)

lemma MonthFromDay_unique:
  assumes "l = 0 \<or> l = 1" "0 \<le> m" "m \<le> 11"
    and "month_start l m \<le> d" "d < month_start l m + month_length l m"
  shows "MonthFromDay l d = m"
  using month_cases[OF assms(2,3)] assms(1,4,5)
  by (elim disjE; simp add: month_start_def month_length_def MonthFromDay_def)

lemma date_range_aux:
  assumes "l = 0 \<or> l = 1" "0 \<le> d" "d < 365 + l"
  shows "1 \<le> d - month_start l (MonthFromDay l d) + 1 \<and>
         d - month_start l (MonthFromDay l d) + 1 \<le> month_length l (MonthFromDay l d)"
  using assms unfolding MonthFromDay_def month_start_def month_length_def
  by auto

lemma month_step:
  assumes l: "l = 0 \<or> l = 1" and d: "0 \<le> d" "d + 1 < 365 + l"
  shows "(MonthFromDay l (d + 1), d + 1 - month_start l (MonthFromDay l (d + 1)) + 1) =
         (if d - month_start l (MonthFromDay l d) + 1 < month_length l (MonthFromDay l d)
          then (MonthFromDay l d, d - month_start l (MonthFromDay l d) + 1 + 1)
          else (MonthFromDay l d + 1, 1)) \<and>
         (d - month_start l (MonthFromDay l d) + 1 < month_length l (MonthFromDay l d) \<or>
          MonthFromDay l d < 11)"
proof -
  define m where "m = MonthFromDay l d"
  have m: "0 \<le> m" "m \<le> 11" using MonthFromDay_range[of l d] by (simp_all add: m_def)
  have r: "month_start l m \<le> d" "d < month_start l m + month_length l m"
    using date_range_aux[OF l d(1)] d(2) by (simp_all add: m_def)
  show ?thesis
  proof (cases "d + 1 < month_start l m + month_length l m")
    case True
    have "MonthFromDay l (d + 1) = m"
      by (rule MonthFromDay_unique[OF l m]) (use r True in simp_all)
    with True show ?thesis unfolding m_def[symmetric] by simp
  next
    case False
    with r have e: "d + 1 = month_start l m + month_length l m" by simp
    have m11: "m < 11"
    proof (rule ccontr)
      assume "\<not> m < 11"
      with m have "m = 11" by simp
      with e d(2) l show False by (auto simp: month_start_def month_length_def)
    qed
    have s: "month_start l (m + 1) = d + 1"
      using month_start_next[OF m(1) m11, of l] e by simp
    have "MonthFromDay l (d + 1) = m + 1"
      by (rule MonthFromDay_unique[OF l]) (use m m11 s month_length_pos[OF l, of "m + 1"] in simp_all)
    with False s m11 show ?thesis unfolding m_def[symmetric] by simp
  qed
qed

lemma month_last:
  assumes "l = 0 \<or> l = 1"
  shows "MonthFromDay l (364 + l) = 11 \<and> 364 + l - month_start l 11 + 1 = 31 \<and>
         month_length l 11 = 31"
  using assms unfolding MonthFromDay_def month_start_def month_length_def
  by auto

lemma civil_unfold:
  "civil t = (YearFromTime t, MonthFromDay (InLeapYear t) (DayWithinYear t),
              DayWithinYear t - month_start (InLeapYear t) (MonthFromDay (InLeapYear t) (DayWithinYear t)) + 1)"
  by (simp add: civil_def MonthFromTime_def DateFromTime_def)

lemma DateFromTime_range:
  "1 \<le> DateFromTime t \<and> DateFromTime t \<le> days_in_month (YearFromTime t) (MonthFromTime t)"
proof -
  have "DayWithinYear t < 365 + InLeapYear t" "0 \<le> DayWithinYear t"
    using DayWithinYear_bounds[of t] by (simp_all add: DaysInYear_InLeapYear)
  from date_range_aux[OF InLeapYear_cases[of t] this(2) this(1)]
  show ?thesis
    unfolding DateFromTime_def MonthFromTime_def days_in_month_def InLeapYear_leap_flag[symmetric] .
qed

lemma month_start_nonneg: "l = 0 \<or> l = 1 \<Longrightarrow> 0 \<le> month_start l m"
  by (auto simp: month_start_def)

text \<open>\<open>MakeDay\<close> is specified through a time value \<open>t\<close> on the first day of the month, with
  \<open>YearFromTime t\<close> the year, \<open>MonthFromTime t\<close> the month and \<open>DateFromTime t\<close> equal to 1.
  The day number that the definition above computes is the day of such a time value.\<close>

lemma month_end_in_year:
  assumes "l = 0 \<or> l = 1" "0 \<le> m" "m \<le> 11"
  shows "month_start l m + month_length l m \<le> 365 + l"
  using month_cases[OF assms(2,3)] assms(1)
  by (elim disjE; simp add: month_start_def month_length_def)

lemma MakeDay_first_of_month:
  assumes "0 \<le> m" "m \<le> 11" and "Day t = MakeDay y m 1"
  shows "YearFromTime t = y \<and> MonthFromTime t = m \<and> DateFromTime t = 1"
proof -
  define l where "l = leap_flag y"
  have l: "l = 0 \<or> l = 1" unfolding l_def by (rule leap_flag_cases)
  have dm: "m div 12 = 0" "m mod 12 = m" using assms(1,2) by simp_all
  have D: "Day t = DayFromYear y + month_start l m"
    using assms(3) by (simp add: MakeDay_def dm l_def)
  have s: "0 \<le> month_start l m" by (rule month_start_nonneg[OF l])
  have e: "month_start l m < 365 + l"
    using month_end_in_year[OF l assms(1,2)] month_length_pos[OF l, of m] by simp
  have nextY: "DayFromYear (y + 1) = DayFromYear y + 365 + l"
    using DayFromYear_Suc[of y] DaysInYear_cases[of y] by (auto simp: l_def leap_flag_def)
  have y: "YearFromTime t = y"
    by (rule YearFromTime_unique) (use D s e nextY in simp_all)
  then have l': "InLeapYear t = l" by (simp add: InLeapYear_leap_flag l_def)
  have w: "DayWithinYear t = month_start l m" by (simp add: DayWithinYear_def y D)
  have mm: "MonthFromDay l (month_start l m) = m"
    by (rule MonthFromDay_unique[OF l assms(1,2)]) (use month_length_pos[OF l, of m] in simp_all)
  show ?thesis
    by (simp add: y MonthFromTime_def DateFromTime_def l' w mm)
qed

subsection \<open>Shifting by whole days\<close>

lemma MakeDay_roundtrip:
  "MakeDay (YearFromTime t) (MonthFromTime t) (DateFromTime t + k) = Day t + k"
proof -
  have "MonthFromTime t div 12 = 0" "MonthFromTime t mod 12 = MonthFromTime t"
    using MonthFromTime_range[of t] by simp_all
  then show ?thesis
    by (simp add: MakeDay_def DateFromTime_def DayWithinYear_def InLeapYear_leap_flag)
qed

lemma Day_MakeDate:
  "Day (MakeDate d (TimeWithinDay t)) = d" "TimeWithinDay (MakeDate d (TimeWithinDay t)) = TimeWithinDay t"
  by (simp_all add: Day_def MakeDate_def TimeWithinDay_def msPerDay_def)

lemma MakeDate_shift: "MakeDate (Day t + k) (TimeWithinDay t) = t + k * msPerDay"
  by (simp add: MakeDate_def Day_def TimeWithinDay_def algebra_simps)

lemma Day_shift: "Day (t + k * msPerDay) = Day t + k"
  by (simp add: Day_def msPerDay_def)

lemma Day_next: "Day (t + msPerDay) = Day t + 1"
  using Day_shift[of t 1] by simp

lemma civil_succ: "civil (t + msPerDay) = next_civil (civil t)"
proof -
  define Y where "Y = YearFromTime t"
  define l where "l = InLeapYear t"
  define d where "d = DayWithinYear t"
  have l: "l = 0 \<or> l = 1" unfolding l_def by (rule InLeapYear_cases)
  have lf: "leap_flag Y = l" by (simp add: l_def Y_def InLeapYear_leap_flag)
  have d: "0 \<le> d" "d < 365 + l"
    using DayWithinYear_bounds[of t] by (simp_all add: d_def l_def DaysInYear_InLeapYear)
  have D: "Day t = DayFromYear Y + d" by (simp add: d_def DayWithinYear_def Y_def)
  have nextY: "DayFromYear (Y + 1) = DayFromYear Y + 365 + l"
    using DayFromYear_Suc[of Y] by (simp add: Y_def l_def DaysInYear_InLeapYear)
  have c: "civil t = (Y, MonthFromDay l d, d - month_start l (MonthFromDay l d) + 1)"
    by (simp add: civil_unfold Y_def l_def d_def)
  show ?thesis
  proof (cases "d + 1 < 365 + l")
    case True
    have y: "YearFromTime (t + msPerDay) = Y"
      by (rule YearFromTime_unique) (use D nextY True d in \<open>simp_all add: Day_next\<close>)
    then have l': "InLeapYear (t + msPerDay) = l"
      by (simp add: InLeapYear_def l_def Y_def)
    have d': "DayWithinYear (t + msPerDay) = d + 1"
      by (simp add: DayWithinYear_def y Day_next D)
    have "civil (t + msPerDay) =
        (Y, MonthFromDay l (d + 1), d + 1 - month_start l (MonthFromDay l (d + 1)) + 1)"
      by (simp add: civil_unfold y l' d')
    also have "\<dots> = next_civil (civil t)"
      using month_step[OF l d(1) True]
      by (auto simp: c next_civil_def days_in_month_def lf)
    finally show ?thesis .
  next
    case False
    with d have e: "d = 364 + l" by simp
    have lo: "DayFromYear (Y + 1) \<le> Day (t + msPerDay)"
      using D nextY e by (simp add: Day_next)
    have hi: "Day (t + msPerDay) < DayFromYear (Y + 1 + 1)"
      using D nextY e DayFromYear_Suc[of "Y + 1"] DaysInYear_cases[of "Y + 1"]
      by (auto simp: Day_next)
    have y: "YearFromTime (t + msPerDay) = Y + 1"
      by (rule YearFromTime_unique[OF lo hi])
    have d': "DayWithinYear (t + msPerDay) = 0"
      using D nextY e by (simp add: DayWithinYear_def y Day_next)
    have "civil (t + msPerDay) = (Y + 1, 0, 1)"
      by (simp add: civil_unfold y d' MonthFromDay_def month_start_def)
    moreover have "next_civil (civil t) = (Y + 1, 0, 1)"
      using month_last[OF l]
      by (simp add: c e next_civil_def days_in_month_def lf)
    ultimately show ?thesis by simp
  qed
qed


subsection \<open>Methods of Date on a valid date\<close>

lemma getDay_Some: "getDay z (Some t) = Some (WeekDay (LocalTime z t))"
  by (simp add: getDay_def)

lemma getDate_Some: "getDate z (Some t) = Some (DateFromTime (LocalTime z t))"
  by (simp add: getDate_def)

lemma setDate_Some:
  "setDate z (Some t) (Some dt) =
     TimeClip (UTC z (MakeDate (MakeDay (YearFromTime (LocalTime z t))
                                    (MonthFromTime (LocalTime z t)) dt)
                          (TimeWithinDay (LocalTime z t))))"
  by (simp add: setDate_def Let_def)

lemma toISOString_Some:
  "toISOString (Some t) =
     Inr (iso_year (YearFromTime t) @ ''-'' @ pad 2 (MonthFromTime t + 1) @ ''-'' @
          pad 2 (DateFromTime t) @ ''T'' @ pad 2 (HourFromTime t) @ '':'' @
          pad 2 (MinFromTime t) @ '':'' @ pad 2 (SecFromTime t) @ ''.'' @
          pad 3 (msFromTime t) @ ''Z'')"
  by (simp add: toISOString_def)

lemma TimeClip_Some: "\<bar>t\<bar> \<le> maxTime \<Longrightarrow> TimeClip t = Some t"
  by (simp add: TimeClip_def)

lemma LocalTime_fixed: "LocalTime (fixed_zone c) t = t + c" "UTC (fixed_zone c) t = t - c"
  by (simp_all add: LocalTime_def UTC_def fixed_zone_def)

text \<open>Setting the day of the month to the current one plus \<open>k\<close> moves the local time by
  exactly \<open>k\<close> days, whatever month or year the result falls in; the new time value is the
  instant that the zone gives to that local time.\<close>

lemma setDate_local:
  "setDate z (Some t) (Some (DateFromTime (LocalTime z t) + k)) =
     TimeClip (UTC z (LocalTime z t + k * msPerDay))"
  by (simp add: setDate_Some MakeDay_roundtrip MakeDate_shift)

text \<open>In a zone without transitions the time value itself moves by exactly \<open>k\<close> days.\<close>

lemma setDate_shift:
  assumes "\<bar>t + k * msPerDay\<bar> \<le> maxTime"
  shows "setDate (fixed_zone c) (Some t) (Some (DateFromTime (LocalTime (fixed_zone c) t) + k))
           = Some (t + k * msPerDay)"
  using assms unfolding setDate_local by (simp add: LocalTime_fixed TimeClip_Some)

subsection \<open>navigateDate\<close>


lemma civil_prev: "next_civil (civil (t - msPerDay)) = civil t"
  using civil_succ[of "t - msPerDay"] by simp




subsection \<open>Evaluation at concrete instants\<close>

lemmas calendar_eval =
  YearFromTime_def MonthFromTime_def DateFromTime_def Day_def msPerDay_def WeekDay_def
  DayFromYear_def DayWithinYear_def InLeapYear_def DaysInYear_def MonthFromDay_def
  month_start_def TimeWithinDay_def leap_flag_def MakeDay_def MakeDate_def
  HourFromTime_def MinFromTime_def SecFromTime_def msFromTime_def Let_def

lemma replicate_numeral: "replicate (numeral v) x = x # replicate (numeral v - 1) x"
  by (simp add: numeral_eq_Suc)

lemmas iso_eval = iso_year_def pad_def show_nat.simps digit_char_def replicate_numeral

lemma civil_fields:
  "civil t = (y, m, d) \<Longrightarrow> YearFromTime t = y \<and> MonthFromTime t = m \<and> DateFromTime t = d"
  by (simp add: civil_def)

lemma LocalTime_0: "LocalTime (fixed_zone 0) t = t" "UTC (fixed_zone 0) t = t"
  by (simp_all add: LocalTime_fixed)





lemma civil_2025_01_01: "civil 1735732800000 = (2025, 0, 1)"
  by (simp add: civil_def calendar_eval)



subsection \<open>getDateRange\<close>

text \<open>Wednesday 2 October 2024, noon UTC, in a browser whose local time is UTC: the Monday
  of that week is 30 September, in the month before.\<close>

lemma civil_2024_10_02: "civil 1727870400000 = (2024, 9, 2)"
  by (simp add: civil_def calendar_eval)

lemma WeekDay_2024_10_02: "WeekDay 1727870400000 = 3"
  by (simp add: calendar_eval)

lemma TimeWithinDay_2024_10_02: "TimeWithinDay 1727870400000 = 43200000"
  by (simp add: calendar_eval)

lemma civil_2024_09_30: "civil 1727697600000 = (2024, 8, 30)"
  by (simp add: civil_def calendar_eval)

lemma civil_2024_11_05: "civil 1730808000000 = (2024, 10, 5)"
  by (simp add: civil_def calendar_eval)

lemma setDate_2024_10_02_to_0:
  "setDate (fixed_zone 0) (Some 1727870400000) (Some 0) = Some 1727697600000"
proof -
  have "MakeDate (MakeDay 2024 9 0) 43200000 = 1727697600000"
    by (simp add: calendar_eval)
  then show ?thesis
    using civil_fields[OF civil_2024_10_02]
    by (simp add: setDate_Some LocalTime_0 TimeWithinDay_2024_10_02 TimeClip_def maxTime_def)
qed

lemma setDate_2024_10_02_to_36:
  "setDate (fixed_zone 0) (Some 1727870400000) (Some 36) = Some 1730808000000"
proof -
  have "MakeDate (MakeDay 2024 9 36) 43200000 = 1730808000000"
    by (simp add: calendar_eval)
  then show ?thesis
    using civil_fields[OF civil_2024_10_02]
    by (simp add: setDate_Some LocalTime_0 TimeWithinDay_2024_10_02 TimeClip_def maxTime_def)
qed

lemma toISOString_2024_09_30:
  "toISOString (Some 1727697600000) = Inr ''2024-09-30T12:00:00.000Z''"
proof -
  have "HourFromTime 1727697600000 = 12 \<and> MinFromTime 1727697600000 = 0 \<and>
        SecFromTime 1727697600000 = 0 \<and> msFromTime 1727697600000 = 0"
    by (simp add: calendar_eval)
  then show ?thesis
    using civil_fields[OF civil_2024_09_30] by (simp add: toISOString_Some iso_eval)
qed

lemma toISOString_2024_11_05:
  "toISOString (Some 1730808000000) = Inr ''2024-11-05T12:00:00.000Z''"
proof -
  have "HourFromTime 1730808000000 = 12 \<and> MinFromTime 1730808000000 = 0 \<and>
        SecFromTime 1730808000000 = 0 \<and> msFromTime 1730808000000 = 0"
    by (simp add: calendar_eval)
  then show ?thesis
    using civil_fields[OF civil_2024_11_05] by (simp add: toISOString_Some iso_eval)
qed

text \<open>Claim C1, at the selected date Wednesday 2 October 2024 in week view.  The start of
  the range is Monday 30 September, but the end is 5 November, 36 days after the start and
  not 6: \<open>end.setDate(start.getDate() + 6)\<close> sets day 36 of October, because \<open>end\<close> is
  still in October while \<open>start.getDate()\<close> is the 30 of September.\<close>

theorem getDateRange_week_across_months:
  "getDateRange (fixed_zone 0)
     \<lparr>selectedDate = Some 1727870400000, viewType = WeekView, statusFilter = ''all'', providerFilter = ''all''\<rparr>
   = Inr \<lparr>start_date = ''2024-09-30'', end_date = ''2024-11-05''\<rparr>"
  using civil_fields[OF civil_2024_10_02] civil_fields[OF civil_2024_09_30]
  by (simp add: getDateRange_def getDay_Some getDate_Some LocalTime_0 WeekDay_2024_10_02
      setDate_2024_10_02_to_0 setDate_2024_10_02_to_36 toISOString_2024_09_30
      toISOString_2024_11_05 num_add_def num_sub_def split_T0_def)

lemma Day_back: "Day (t - k * msPerDay) = Day t - k"
  using Day_shift[of t "- k"] by simp

text \<open>Going back fewer days than the day of the month stays in the month.\<close>

lemma DateFromTime_back:
  assumes "0 \<le> k" "k < DateFromTime t"
  shows "DateFromTime (t - k * msPerDay) = DateFromTime t - k"
proof -
  define Y where "Y = YearFromTime t"
  define l where "l = InLeapYear t"
  define d where "d = DayWithinYear t"
  define m where "m = MonthFromDay l d"
  have l: "l = 0 \<or> l = 1" unfolding l_def by (rule InLeapYear_cases)
  have d: "0 \<le> d" "d < 365 + l"
    using DayWithinYear_bounds[of t] by (simp_all add: d_def l_def DaysInYear_InLeapYear)
  have m: "0 \<le> m" "m \<le> 11" using MonthFromDay_range[of l d] by (simp_all add: m_def)
  have D: "Day t = DayFromYear Y + d" by (simp add: d_def DayWithinYear_def Y_def)
  have date: "DateFromTime t = d - month_start l m + 1"
    by (simp add: DateFromTime_def MonthFromTime_def l_def d_def m_def)
  have up: "d < month_start l m + month_length l m"
    using date_range_aux[OF l d] by (simp add: m_def)
  have lo: "month_start l m \<le> d - k" using assms(2) date by simp
  have nextY: "DayFromYear (Y + 1) = DayFromYear Y + 365 + l"
    using DayFromYear_Suc[of Y] by (simp add: Y_def l_def DaysInYear_InLeapYear)
  have y: "YearFromTime (t - k * msPerDay) = Y"
    by (rule YearFromTime_unique)
      (use D nextY d lo assms(1) month_start_nonneg[OF l, of m] in \<open>simp_all add: Day_back\<close>)
  then have l': "InLeapYear (t - k * msPerDay) = l"
    by (simp add: InLeapYear_def l_def Y_def)
  have d': "DayWithinYear (t - k * msPerDay) = d - k"
    by (simp add: DayWithinYear_def y Day_back D)
  have mm: "MonthFromDay l (d - k) = m"
    by (rule MonthFromDay_unique[OF l m lo]) (use up assms(1) in simp)
  have "DateFromTime (t - k * msPerDay) = d - k - month_start l m + 1"
    unfolding DateFromTime_def MonthFromTime_def l' d' mm by simp
  with date show ?thesis by simp
qed

lemma WeekDay_range: "0 \<le> WeekDay t \<and> WeekDay t \<le> 6"
  by (simp add: WeekDay_def)

lemma WeekDay_monday:
  "WeekDay (t - ((WeekDay t + 6) mod 7) * msPerDay) = 1"
proof -
  have "(x - ((x + 4) mod 7 + 6) mod 7 + 4) mod 7 = 1" for x :: int
    by presburger
  then show ?thesis by (simp add: WeekDay_def Day_back)
qed

lemma shift_in_range:
  assumes "\<bar>t\<bar> + n * msPerDay \<le> maxTime" "- n \<le> k" "k \<le> n"
  shows "\<bar>t + k * msPerDay\<bar> \<le> maxTime"
  using assms unfolding msPerDay_def by linarith

text \<open>Week view in general, in a zone without transitions.  The start is moved back to
  the Monday of the local week.  The end is set from the day of the month of that Monday, in the month of the selected date:
  it is six days after the start when the Monday lies in the month of the selected date, and
  later than that (by the day of the month that the Monday has, counted past the last day
  before the selected month) when the Monday lies in the month before.\<close>

lemma getDateRange_week:
  fixes off t :: int
  assumes v: "viewType s = WeekView" and t: "selectedDate s = Some t"
    and r: "\<bar>t\<bar> + 50 * msPerDay \<le> maxTime"
  defines "back \<equiv> (WeekDay (LocalTime (fixed_zone off) t) + 6) mod 7"
  defines "start_t \<equiv> t - back * msPerDay"
  defines "extra \<equiv> DateFromTime (LocalTime (fixed_zone off) start_t) -
                   (DateFromTime (LocalTime (fixed_zone off) t) - back)"
  defines "end_t \<equiv> start_t + (6 + extra) * msPerDay"
  shows "\<exists>a b. toISOString (Some start_t) = Inr a \<and> toISOString (Some end_t) = Inr b \<and>
           getDateRange (fixed_zone off) s = Inr \<lparr>start_date = split_T0 a, end_date = split_T0 b\<rparr>"
    and "WeekDay (LocalTime (fixed_zone off) start_t) = 1"
    and "0 \<le> back \<and> back \<le> 6"
    and "back < DateFromTime (LocalTime (fixed_zone off) t) \<Longrightarrow> extra = 0"
    and "DateFromTime (LocalTime (fixed_zone off) t) \<le> back \<Longrightarrow> 0 < extra"
proof -
  let ?lt = "LocalTime (fixed_zone off) t"
  let ?w = "WeekDay ?lt"
  let ?D = "DateFromTime ?lt"
  let ?D' = "DateFromTime (LocalTime (fixed_zone off) start_t)"
  have w: "0 \<le> ?w" "?w \<le> 6" using WeekDay_range[of ?lt] by simp_all
  show b: "0 \<le> back \<and> back \<le> 6" by (simp add: back_def)
  have bk: "back = (if ?w = 0 then 6 else ?w - 1)"
  proof (cases "?w = 0")
    case True
    then show ?thesis by (simp add: back_def)
  next
    case False
    have "(?w + 6) mod 7 = ?w - 1"
      by (rule int_mod_pos_eq[of _ _ 1]) (use w False in simp_all)
    with False show ?thesis by (simp add: back_def)
  qed
  have diff: "?D - ?w + (if ?w = 0 then - 6 else 1) = ?D + (- back)"
    by (simp add: bk)
  have ls: "LocalTime (fixed_zone off) start_t = ?lt - back * msPerDay"
    by (simp add: start_t_def LocalTime_fixed)
  show "WeekDay (LocalTime (fixed_zone off) start_t) = 1"
    unfolding ls back_def by (rule WeekDay_monday)
  have D'r: "1 \<le> ?D'" "?D' \<le> 31"
    using DateFromTime_range[of "LocalTime (fixed_zone off) start_t"]
      leap_flag_cases[of "YearFromTime (LocalTime (fixed_zone off) start_t)"]
    by (auto simp: days_in_month_def month_length_def split: if_splits)
  have Dr: "1 \<le> ?D" "?D \<le> 31"
    using DateFromTime_range[of ?lt] leap_flag_cases[of "YearFromTime ?lt"]
    by (auto simp: days_in_month_def month_length_def split: if_splits)
  show e0: "extra = 0" if "back < ?D"
    using DateFromTime_back[of "back" ?lt] b that by (simp add: extra_def ls)
  show "0 < extra" if "?D \<le> back"
    using that D'r by (simp add: extra_def)
  have r1: "\<bar>t + (- back) * msPerDay\<bar> \<le> maxTime"
    by (rule shift_in_range[OF r]) (use b in simp_all)
  have s1: "setDate (fixed_zone off) (Some t) (Some (?D + (- back))) = Some start_t"
    using setDate_shift[OF r1, of off] by (simp add: start_t_def)
  have k: "?D' + 6 = ?D + (6 + extra - back)" by (simp add: extra_def)
  have e: "- 30 \<le> extra" "extra \<le> 36"
    using b D'r Dr by (simp_all add: extra_def)
  have r2: "\<bar>t + (6 + extra - back) * msPerDay\<bar> \<le> maxTime"
    by (rule shift_in_range[OF r]) (use b e in simp_all)
  have "setDate (fixed_zone off) (Some t) (Some (?D + (6 + extra - back))) = Some (t + (6 + extra - back) * msPerDay)"
    by (rule setDate_shift[OF r2])
  also have "t + (6 + extra - back) * msPerDay = end_t"
    by (simp add: end_t_def start_t_def algebra_simps)
  finally have s2: "setDate (fixed_zone off) (Some t) (Some (?D' + 6)) = Some end_t"
    by (simp add: k)
  obtain a c where a: "toISOString (Some start_t) = Inr a" and c: "toISOString (Some end_t) = Inr c"
    by (simp add: toISOString_Some)
  have g1: "num_add (num_sub (getDate (fixed_zone off) (Some t)) (getDay (fixed_zone off) (Some t)))
              (if getDay (fixed_zone off) (Some t) = Some 0 then Some (- 6) else Some 1) = Some (?D + (- back))"
    using bk by (auto simp: getDay_Some getDate_Some num_add_def num_sub_def)
  have g2: "num_add (getDate (fixed_zone off) (Some start_t)) (Some 6) = Some (?D' + 6)"
    by (simp add: getDate_Some num_add_def)
  have "getDateRange (fixed_zone off) s = Inr \<lparr>start_date = split_T0 a, end_date = split_T0 c\<rparr>"
    by (simp only: getDateRange_def Let_def v t g1 s1 g2 s2 a c simp_thms if_True
        prod.case sum.case)
  with a c show "\<exists>a b. toISOString (Some start_t) = Inr a \<and> toISOString (Some end_t) = Inr b \<and>
           getDateRange (fixed_zone off) s = Inr \<lparr>start_date = split_T0 a, end_date = split_T0 b\<rparr>"
    by blast
qed

text \<open>The dates of the range are printed in UTC, while the Monday is found in local time.
  In a browser two hours ahead of UTC, half an hour after local midnight on Wednesday
  16 October 2024 (22:30 UTC on the 15th), the local Monday 14 October at 00:30 is printed
  as 13 October, a Sunday, and the local Sunday 20 October as 19 October.\<close>

lemma getDateRange_week_ahead_of_utc:
  "getDateRange (fixed_zone 7200000)
     \<lparr>selectedDate = Some 1729031400000, viewType = WeekView, statusFilter = ''all'', providerFilter = ''all''\<rparr>
   = Inr \<lparr>start_date = ''2024-10-13'', end_date = ''2024-10-19''\<rparr>"
proof -
  have lt: "LocalTime (fixed_zone 7200000) 1729031400000 = 1729038600000"
    "LocalTime (fixed_zone 7200000) 1728858600000 = 1728865800000"
    by (simp_all add: LocalTime_fixed)
  have c0: "civil 1729038600000 = (2024, 9, 16)" by (simp add: civil_def calendar_eval)
  have w0: "WeekDay 1729038600000 = 3" by (simp add: calendar_eval)
  have tw: "TimeWithinDay 1729038600000 = 1800000" by (simp add: calendar_eval)
  have c1: "civil 1728865800000 = (2024, 9, 14)" by (simp add: civil_def calendar_eval)
  have m1: "UTC (fixed_zone 7200000) (MakeDate (MakeDay 2024 9 14) 1800000) = 1728858600000"
    by (simp add: LocalTime_fixed calendar_eval)
  have m2: "UTC (fixed_zone 7200000) (MakeDate (MakeDay 2024 9 20) 1800000) = 1729377000000"
    by (simp add: LocalTime_fixed calendar_eval)
  have s1: "setDate (fixed_zone 7200000) (Some 1729031400000) (Some 14) = Some 1728858600000"
    using civil_fields[OF c0] by (simp add: setDate_Some lt tw m1 TimeClip_def maxTime_def)
  have s2: "setDate (fixed_zone 7200000) (Some 1729031400000) (Some 20) = Some 1729377000000"
    using civil_fields[OF c0] by (simp add: setDate_Some lt tw m2 TimeClip_def maxTime_def)
  have u1: "civil 1728858600000 = (2024, 9, 13)" by (simp add: civil_def calendar_eval)
  have u2: "civil 1729377000000 = (2024, 9, 19)" by (simp add: civil_def calendar_eval)
  have h1: "HourFromTime 1728858600000 = 22 \<and> MinFromTime 1728858600000 = 30 \<and>
        SecFromTime 1728858600000 = 0 \<and> msFromTime 1728858600000 = 0"
    by (simp add: calendar_eval)
  have h2: "HourFromTime 1729377000000 = 22 \<and> MinFromTime 1729377000000 = 30 \<and>
        SecFromTime 1729377000000 = 0 \<and> msFromTime 1729377000000 = 0"
    by (simp add: calendar_eval)
  have i1: "toISOString (Some 1728858600000) = Inr ''2024-10-13T22:30:00.000Z''"
    using civil_fields[OF u1] h1 by (simp add: toISOString_Some iso_eval)
  have i2: "toISOString (Some 1729377000000) = Inr ''2024-10-19T22:30:00.000Z''"
    using civil_fields[OF u2] h2 by (simp add: toISOString_Some iso_eval)
  show ?thesis
    using civil_fields[OF c0] civil_fields[OF c1]
    by (simp add: getDateRange_def getDay_Some getDate_Some lt w0 s1 s2 i1 i2
        num_add_def num_sub_def split_T0_def)
qed

section \<open>Properties of the list pages\<close>

subsection \<open>Rendering\<close>

lemma render_list_error: "render_list q = Inr ErrorState \<longleftrightarrow> q_error q \<noteq> None"
  by (auto simp: render_list_def map_sum_def split: sum.splits if_splits)

lemma render_list_loading:
  "render_list q = Inr LoadingState \<longleftrightarrow> q_error q = None \<and> q_isLoading q"
  by (auto simp: render_list_def map_sum_def split: sum.splits if_splits)

lemma items_length_empty: "own_prop d ''items'' = JArr [] \<Longrightarrow> items_length d = Inr (JNum 0)"
  by (auto simp: items_length_def)

text \<open>Claim C7.  A fetch that resolved with a body whose \<open>items\<close> is the empty array
  renders the empty state; the loading skeleton is rendered exactly while the fetch is in
  flight (no error, \<open>isLoading\<close>), and the error branch exactly when the fetch failed (an
  error is set).\<close>

theorem empty_list_renders_empty_state:
  "(own_prop d ''items'' = JArr [] \<longrightarrow> render_list (useQuery (Resolved d)) = Inr EmptyState) \<and>
   (render_list (useQuery f) = Inr LoadingState \<longleftrightarrow> f = InFlight) \<and>
   (render_list (useQuery f) = Inr ErrorState \<longleftrightarrow> (\<exists>e. f = Failed e)) \<and>
   (render_list q = Inr LoadingState \<longleftrightarrow> q_error q = None \<and> q_isLoading q) \<and>
   (render_list q = Inr ErrorState \<longleftrightarrow> q_error q \<noteq> None)"
proof (intro conjI impI)
  assume "own_prop d ''items'' = JArr []"
  then show "render_list (useQuery (Resolved d)) = Inr EmptyState"
    by (simp add: render_list_def useQuery_def items_length_empty)
next
  show "render_list (useQuery f) = Inr LoadingState \<longleftrightarrow> f = InFlight"
    unfolding render_list_loading by (cases f) (simp_all add: useQuery_def)
next
  show "render_list (useQuery f) = Inr ErrorState \<longleftrightarrow> (\<exists>e. f = Failed e)"
    unfolding render_list_error by (cases f) (simp_all add: useQuery_def)
next
  show "render_list q = Inr LoadingState \<longleftrightarrow> q_error q = None \<and> q_isLoading q"
    by (rule render_list_loading)
next
  show "render_list q = Inr ErrorState \<longleftrightarrow> q_error q \<noteq> None"
    by (rule render_list_error)
qed

theorem empty_list_renders_empty_state_witness:
  "render_list (useQuery (Resolved (JObj [(''items'', JArr []), (''total'', JNum 0), (''page'', JNum 1)])))
     = Inr EmptyState \<and>
   render_list (useQuery InFlight) = Inr LoadingState \<and>
   render_list (useQuery (Failed (Thrown TypeError))) = Inr ErrorState"
proof -
  let ?d = "JObj [(''items'', JArr []), (''total'', JNum 0), (''page'', JNum 1)]"
  have i: "own_prop ?d ''items'' = JArr []" by simp
  from empty_list_renders_empty_state[of ?d InFlight] i
  have 1: "render_list (useQuery (Resolved ?d)) = Inr EmptyState"
    and 2: "render_list (useQuery InFlight) = Inr LoadingState"
    by simp_all
  from empty_list_renders_empty_state[of ?d "Failed (Thrown TypeError)"]
  have 3: "render_list (useQuery (Failed (Thrown TypeError))) = Inr ErrorState"
    by simp
  from 1 2 3 show ?thesis by simp
qed

subsection \<open>Filters and pagination\<close>

lemma requested_page_patients: "requested_page (patients_params p) = JNum (currentPage p)"
  by (simp add: requested_page_def patients_params_def)

lemma appointments_params_keys:
  assumes "appointments_params z s = Inr ps"
  shows "set (map fst ps) \<subseteq> {''start_date'', ''end_date'', ''status'', ''provider_id''}"
  using assms by (auto simp: appointments_params_def split: sum.splits if_splits)

lemma appointments_params_no_page:
  assumes "appointments_params z s = Inr ps"
  shows "requested_page ps = JUndefined"
proof -
  have "''page'' \<notin> set (map fst ps)"
    using appointments_params_keys[OF assms] by auto
  then have "map_of ps ''page'' = None"
    by (simp add: map_of_eq_None_iff)
  then show ?thesis by (simp add: requested_page_def)
qed

text \<open>Claim C6.  The list page that has a page number is the patients page.  There, a change
  of the search term or of the search type while the displayed page is greater than 1 (and
  at any other page) sets the page to 1 and changes nothing else but the filter, so the page
  displayed after the change is 1 and the request that follows asks for page 1.  The
  appointments page, which has the status and the provider filter, shows its list unpaged:
  its state has no page number, a change of either filter changes that field only, and its
  requests name no page.\<close>

theorem filter_change_and_pagination:
  "(1 < currentPage p \<longrightarrow>
      currentPage (onSearchTermChange v p) = 1 \<and> currentPage (onSearchTypeChange v p) = 1) \<and>
   onSearchTermChange v p = p\<lparr>searchTerm := v, currentPage := 1\<rparr> \<and>
   onSearchTypeChange v p = p\<lparr>searchType := v, currentPage := 1\<rparr> \<and>
   requested_page (patients_params (onSearchTermChange v p)) = JNum 1 \<and>
   requested_page (patients_params (onSearchTypeChange v p)) = JNum 1 \<and>
   setStatusFilter v s = s\<lparr>statusFilter := v\<rparr> \<and>
   setProviderFilter v s = s\<lparr>providerFilter := v\<rparr> \<and>
   (appointments_params z (setStatusFilter v s) = Inr ps \<longrightarrow> requested_page ps = JUndefined) \<and>
   (appointments_params z (setProviderFilter v s) = Inr ps' \<longrightarrow> requested_page ps' = JUndefined)"
  by (simp add: onSearchTermChange_def onSearchTypeChange_def handleSearch_def
      requested_page_patients setStatusFilter_def setProviderFilter_def
      appointments_params_no_page)

text \<open>In day view and in list view the range is the selected day, twice, when the zone reads
  the local time of the selected instant back as that instant (it always does, except in
  the hour that a transition repeats).\<close>

lemma getDateRange_single_day:
  assumes "viewType s \<noteq> WeekView" "selectedDate s = Some t" "\<bar>t\<bar> \<le> maxTime"
    and "UTC z (LocalTime z t) = t"
  shows "\<exists>x. dateStr s = Inr x \<and> getDateRange z s = Inr \<lparr>start_date = x, end_date = x\<rparr>"
proof -
  have "setDate z (Some t) (Some (DateFromTime (LocalTime z t) + 0)) =
          TimeClip (UTC z (LocalTime z t + 0 * msPerDay))"
    by (rule setDate_local)
  then have e: "setDate z (Some t) (Some (DateFromTime (LocalTime z t))) = Some t"
    using assms(3,4) by (simp add: TimeClip_Some)
  obtain x where x: "toISOString (Some t) = Inr x"
    by (simp add: toISOString_Some)
  have "getDateRange z s = Inr \<lparr>start_date = split_T0 x, end_date = split_T0 x\<rparr>"
    using assms(1,2) e x by (simp add: getDateRange_def getDate_Some)
  moreover have "dateStr s = Inr (split_T0 x)"
    using assms(2) x by (simp add: dateStr_def)
  ultimately show ?thesis by blast
qed

lemma toISOString_2024_10_02:
  "toISOString (Some 1727870400000) = Inr ''2024-10-02T12:00:00.000Z''"
proof -
  have "HourFromTime 1727870400000 = 12 \<and> MinFromTime 1727870400000 = 0 \<and>
        SecFromTime 1727870400000 = 0 \<and> msFromTime 1727870400000 = 0"
    by (simp add: calendar_eval)
  then show ?thesis
    using civil_fields[OF civil_2024_10_02] by (simp add: toISOString_Some iso_eval)
qed

lemma appointments_params_example:
  "appointments_params (fixed_zone 0)
     \<lparr>selectedDate = Some 1727870400000, viewType = DayView, statusFilter = ''scheduled'',
      providerFilter = ''all''\<rparr>
   = Inr [(''start_date'', JStr ''2024-10-02''), (''end_date'', JStr ''2024-10-02''),
          (''status'', JStr ''scheduled'')]"
proof -
  let ?s = "\<lparr>selectedDate = Some 1727870400000, viewType = DayView, statusFilter = ''scheduled'',
      providerFilter = ''all''\<rparr>"
  have d: "dateStr ?s = Inr ''2024-10-02''"
    by (simp add: dateStr_def toISOString_2024_10_02 split_T0_def)
  have r: "\<bar>1727870400000\<bar> \<le> maxTime" by (simp add: maxTime_def)
  have u: "UTC (fixed_zone 0) (LocalTime (fixed_zone 0) 1727870400000) = 1727870400000"
    by (simp add: LocalTime_0)
  from getDateRange_single_day[of ?s 1727870400000 "fixed_zone 0", OF _ _ r u] d
  have "getDateRange (fixed_zone 0) ?s = Inr \<lparr>start_date = ''2024-10-02'', end_date = ''2024-10-02''\<rparr>"
    by simp
  then show ?thesis by (simp add: appointments_params_def)
qed

theorem filter_change_and_pagination_witness:
  "1 < currentPage \<lparr>searchTerm = [], searchType = ''all'', currentPage = 3, perPage = 20\<rparr> \<and>
   currentPage
     (onSearchTermChange ''smith'' \<lparr>searchTerm = [], searchType = ''all'', currentPage = 3, perPage = 20\<rparr>)
     = 1 \<and>
   currentPage
     (onSearchTypeChange ''smith'' \<lparr>searchTerm = [], searchType = ''all'', currentPage = 3, perPage = 20\<rparr>)
     = 1 \<and>
   requested_page (patients_params
     (onSearchTermChange ''smith'' \<lparr>searchTerm = [], searchType = ''all'', currentPage = 3, perPage = 20\<rparr>))
     = JNum 1 \<and>
   appointments_params (fixed_zone 0)
     (setStatusFilter ''scheduled''
        \<lparr>selectedDate = Some 1727870400000, viewType = DayView, statusFilter = ''all'',
         providerFilter = ''all''\<rparr>)
     = Inr [(''start_date'', JStr ''2024-10-02''), (''end_date'', JStr ''2024-10-02''),
            (''status'', JStr ''scheduled'')] \<and>
   requested_page [(''start_date'', JStr ''2024-10-02''), (''end_date'', JStr ''2024-10-02''),
                   (''status'', JStr ''scheduled'')] = JUndefined"
proof -
  let ?p = "\<lparr>searchTerm = [], searchType = ''all'', currentPage = 3, perPage = 20\<rparr>"
  let ?s = "\<lparr>selectedDate = Some 1727870400000, viewType = DayView, statusFilter = ''all'',
         providerFilter = ''all''\<rparr>"
  let ?ps = "[(''start_date'', JStr ''2024-10-02''), (''end_date'', JStr ''2024-10-02''),
            (''status'', JStr ''scheduled'')]"
  have a: "appointments_params (fixed_zone 0) (setStatusFilter ''scheduled'' ?s) = Inr ?ps"
    using appointments_params_example by (simp add: setStatusFilter_def)
  have p: "1 < currentPage ?p" by simp
  from filter_change_and_pagination[where v = "''smith''" and p = ?p] p
  have 1: "requested_page (patients_params (onSearchTermChange ''smith'' ?p)) = JNum 1"
    and 0: "currentPage (onSearchTermChange ''smith'' ?p) = 1"
           "currentPage (onSearchTypeChange ''smith'' ?p) = 1"
    by blast+
  from filter_change_and_pagination[where v = "''scheduled''" and s = ?s and z = "fixed_zone 0"
      and ps = ?ps] a
  have 2: "requested_page ?ps = JUndefined"
    by blast
  from 0 1 2 a p show ?thesis by simp
qed

section \<open>Properties of calculateAge\<close>

lemma calculateAge_early_returns:
  "calculateAge z parse now (DateStr []) = Some 0"
  "new_Date parse x = None \<Longrightarrow> calculateAge z parse now x = Some 0"
  by (simp_all add: calculateAge_def)

lemma calculateAge_civil:
  assumes "x \<noteq> DateStr []" and "new_Date parse x = Some b"
    and "civil (LocalTime z b) = (yb, mb, db)"
    and "civil (LocalTime z now) = (yt, mt, dt)"
  shows "calculateAge z parse now x =
           Some (yt - yb - (if mt < mb \<or> (mt = mb \<and> dt < db) then 1 else 0))"
  using assms(1,2) civil_fields[OF assms(3)] civil_fields[OF assms(4)]
  by (auto simp: calculateAge_def getFullYear_def getMonth_def getDate_def num_sub_def
      num_less_def Let_def)

lemma civil_ranges:
  assumes "civil t = (y, m, d)"
  shows "0 \<le> m \<and> m \<le> 11 \<and> 1 \<le> d \<and> d \<le> days_in_month y m"
  using civil_fields[OF assms] MonthFromTime_range[of t] DateFromTime_range[of t]
  by auto

text \<open>From one day to the next, the number of birthdays reached grows by one exactly on
  the birthday, and for a birthday on 29 February on 1 March of a year without one.\<close>

lemma age_step:
  fixes y' m' d' yt mt dt yb mb db :: int
  assumes n: "next_civil (y', m', d') = (yt, mt, dt)"
    and r: "0 \<le> m'" "m' \<le> 11" "1 \<le> d'" "d' \<le> days_in_month y' m'"
    and b: "0 \<le> mb" "mb \<le> 11" "1 \<le> db" "db \<le> days_in_month yb mb"
  shows "(yt - (if mt < mb \<or> (mt = mb \<and> dt < db) then 1 else 0)) -
         (y' - (if m' < mb \<or> (m' = mb \<and> d' < db) then 1 else 0)) =
         (if (mt = mb \<and> dt = db) \<or> (mb = 1 \<and> db = 29 \<and> mt = 2 \<and> dt = 1 \<and> leap_flag yt = 0)
          then 1 else 0)"
proof -
  have db31: "db \<le> 31" and dbm: "db \<le> month_length 1 mb"
    using b(4) leap_flag_cases[of yb]
    by (auto simp: days_in_month_def month_length_def split: if_splits)
  consider (same) "d' < days_in_month y' m'"
    | (month) "d' = days_in_month y' m'" "m' < 11"
    | (year) "d' = days_in_month y' m'" "m' = 11"
    using r by linarith
  then show ?thesis
  proof cases
    case same
    with n have "yt = y'" "mt = m'" "dt = d' + 1" by (simp_all add: next_civil_def)
    with r(3) show ?thesis by auto
  next
    case month
    with n have e: "yt = y'" "mt = m' + 1" "dt = 1" by (simp_all add: next_civil_def)
    show ?thesis
    proof (cases "m' = mb")
      case True
      have "d' < db \<longleftrightarrow> mb = 1 \<and> db = 29 \<and> leap_flag y' = 0"
        using month(1) dbm True leap_flag_cases[of y']
        by (auto simp: days_in_month_def month_length_def)
      with True e show ?thesis by auto
    next
      case False
      with e b(3) show ?thesis by auto
    qed
  next
    case year
    with n have e: "yt = y' + 1" "mt = 0" "dt = 1" by (simp_all add: next_civil_def)
    have "d' = 31" using year by (simp add: days_in_month_def month_length_def)
    with e year(2) db31 b show ?thesis by auto
  qed
qed

text \<open>The result relative to the \<open>Date\<close> that \<open>new Date(birthDate)\<close> yields.  When the
  local calendar date of that \<open>Date\<close> is the day of birth, \<open>calculateAge\<close> returns the number
  of full years between the day of birth and the local calendar date of now: the
  anniversary of that number has been reached and the next one has not.  At an instant with
  the same month and day one year later the result is greater by exactly one.  From one
  day to the next the result changes only on the birthday, where it is greater by exactly
  one than the day before (for a birth on 29 February, in a year without one, this happens
  on 1 March).\<close>

lemma calculateAge_full_years:
  assumes "x \<noteq> DateStr []" and "new_Date parse x = Some b"
    and "civil (LocalTime z b) = (yb, mb, db)"
    and "civil (LocalTime z now) = (yt, mt, dt)"
  shows
   "\<exists>age. calculateAge z parse now x = Some age \<and>
      civil_le (yb + age, mb, db) (yt, mt, dt) \<and>
      \<not> civil_le (yb + age + 1, mb, db) (yt, mt, dt) \<and>
      (civil (LocalTime z now') = (yt + 1, mt, dt) \<longrightarrow>
         calculateAge z parse now' x = Some (age + 1)) \<and>
      (next_civil (civil (LocalTime z earlier)) = (yt, mt, dt) \<longrightarrow>
         calculateAge z parse earlier x =
           Some (age - (if (mt = mb \<and> dt = db) \<or>
                           (mb = 1 \<and> db = 29 \<and> mt = 2 \<and> dt = 1 \<and> leap_flag yt = 0)
                        then 1 else 0)))"
proof -
  note age = calculateAge_civil[OF assms(1,2,3)]
  define a where "a = yt - yb - (if mt < mb \<or> (mt = mb \<and> dt < db) then 1 else 0)"
  have a: "calculateAge z parse now x = Some a"
    unfolding a_def by (rule age[OF assms(4)])
  obtain y' m' d' where y: "civil (LocalTime z earlier) = (y', m', d')"
    by (cases "civil (LocalTime z earlier)") auto
  define a' where "a' = y' - yb - (if m' < mb \<or> (m' = mb \<and> d' < db) then 1 else 0)"
  have a': "calculateAge z parse earlier x = Some a'"
    unfolding a'_def by (rule age[OF y])
  have step: "a - a' =
      (if (mt = mb \<and> dt = db) \<or> (mb = 1 \<and> db = 29 \<and> mt = 2 \<and> dt = 1 \<and> leap_flag yt = 0)
       then 1 else 0)"
    if n: "next_civil (y', m', d') = (yt, mt, dt)"
    using age_step[OF n, of mb db yb] civil_ranges[OF y] civil_ranges[OF assms(3)]
    unfolding a_def a'_def by (simp add: algebra_simps)
  have 1: "civil_le (yb + a, mb, db) (yt, mt, dt)"
    unfolding a_def by (auto simp: civil_le_def)
  have 2: "\<not> civil_le (yb + a + 1, mb, db) (yt, mt, dt)"
    unfolding a_def by (auto simp: civil_le_def)
  have 3: "calculateAge z parse now' x = Some (a + 1)"
    if "civil (LocalTime z now') = (yt + 1, mt, dt)"
    unfolding a_def age[OF that] by simp
  have 4: "calculateAge z parse earlier x =
           Some (a - (if (mt = mb \<and> dt = db) \<or>
                         (mb = 1 \<and> db = 29 \<and> mt = 2 \<and> dt = 1 \<and> leap_flag yt = 0)
                      then 1 else 0))"
    if "next_civil (civil (LocalTime z earlier)) = (yt, mt, dt)"
  proof -
    from that y have "next_civil (y', m', d') = (yt, mt, dt)" by simp
    from step[OF this] have "a' = a - (if (mt = mb \<and> dt = db) \<or>
                         (mb = 1 \<and> db = 29 \<and> mt = 2 \<and> dt = 1 \<and> leap_flag yt = 0)
                      then 1 else 0)"
      by simp
    with a' show ?thesis by simp
  qed
  from a 1 2 3 4 show ?thesis by blast
qed

text \<open>A birth on 15 June 2000, given as a \<open>Date\<close> at midnight UTC, seen from a browser on UTC
  in the morning of 14 June 2024 and of 15 June 2024.\<close>

lemma civil_2000_06_15: "civil 961027200000 = (2000, 5, 15)"
  by (simp add: civil_def calendar_eval)

lemma civil_2024_06_14: "civil 1718357400000 = (2024, 5, 14)"
  by (simp add: civil_def calendar_eval)

lemma civil_2024_06_15: "civil 1718443800000 = (2024, 5, 15)"
  by (simp add: civil_def calendar_eval)

lemma calculateAge_day_before_birthday:
  "calculateAge (fixed_zone 0) Map.empty 1718357400000 (DateObj (Some 961027200000)) = Some 23"
  using calculateAge_civil[of "DateObj (Some 961027200000)" Map.empty 961027200000 "fixed_zone 0"
      2000 5 15 1718357400000 2024 5 14]
  by (simp add: new_Date_def LocalTime_0 civil_2000_06_15 civil_2024_06_14)

lemma calculateAge_on_birthday:
  "calculateAge (fixed_zone 0) Map.empty 1718443800000 (DateObj (Some 961027200000)) = Some 24"
  using calculateAge_civil[of "DateObj (Some 961027200000)" Map.empty 961027200000 "fixed_zone 0"
      2000 5 15 1718443800000 2024 5 15]
  by (simp add: new_Date_def LocalTime_0 civil_2000_06_15 civil_2024_06_15)

subsection \<open>A date of birth given as a string\<close>

lemma parse_date_only_2000_06_15: "parse_date_only ''2000-06-15'' = Some 961027200000"
proof -
  have d: "radix_value 10 ''2000'' = 2000" "radix_value 10 ''06'' = 6" "radix_value 10 ''15'' = 15"
    by (simp_all add: radix_value_def digit_value_def)
  have m: "days_in_month 2000 5 = 30"
    by (simp add: days_in_month_def month_length_def)
  have t: "TimeClip (MakeDate (MakeDay 2000 5 15) 0) = Some 961027200000"
    by (simp add: TimeClip_def maxTime_def calendar_eval)
  show ?thesis
    by (simp add: parse_date_only_def is_digit_def d m t)
qed

text \<open>Five hours behind UTC, midnight UTC of 15 June 2000 is 19:00 of 14 June 2000, and
  17:00 UTC of 14 June 2024 is noon of that day.\<close>

lemma civil_2000_06_14_evening: "civil 961009200000 = (2000, 5, 14)"
  by (simp add: civil_def calendar_eval)

lemma civil_2024_06_14_noon: "civil 1718366400000 = (2024, 5, 14)"
  by (simp add: civil_def calendar_eval)

lemma civil_2024_06_14_utc: "civil 1718384400000 = (2024, 5, 14)"
  by (simp add: civil_def calendar_eval)

text \<open>Claim C3, at the date of birth \<open>'2000-06-15'\<close>, in a browser whose time zone is five
  hours behind UTC all year (as in Bogota or Lima), at noon local time of 14 June 2024, the
  day before the 24th birthday: 23 full years have elapsed, and \<open>calculateAge\<close> returns 24.
  The string is read as midnight UTC of 15 June 2000, an instant that the local fields
  \<open>getFullYear\<close>, \<open>getMonth\<close> and \<open>getDate\<close> place on 14 June 2000, so the birthday is taken to
  be the day before the date of birth.  At the same instant a browser on UTC returns 23 for
  the same string.\<close>

theorem calculateAge_date_string_behind_utc:
  "parse_date_only ''2000-06-15'' = Some 961027200000 \<and>
   civil 961027200000 = (2000, 5, 15) \<and>
   civil (LocalTime (fixed_zone (- 18000000)) 961027200000) = (2000, 5, 14) \<and>
   civil (LocalTime (fixed_zone (- 18000000)) 1718384400000) = (2024, 5, 14) \<and>
   calculateAge (fixed_zone (- 18000000)) parse_date_only 1718384400000 (DateStr ''2000-06-15'')
     = Some 24 \<and>
   calculateAge (fixed_zone 0) parse_date_only 1718384400000 (DateStr ''2000-06-15'') = Some 23"
proof -
  let ?x = "DateStr ''2000-06-15''"
  have x: "?x \<noteq> DateStr []" "new_Date parse_date_only ?x = Some 961027200000"
    by (simp_all add: new_Date_def parse_date_only_2000_06_15)
  have b: "civil (LocalTime (fixed_zone (- 18000000)) 961027200000) = (2000, 5, 14)"
    by (simp add: LocalTime_fixed civil_2000_06_14_evening)
  have n: "civil (LocalTime (fixed_zone (- 18000000)) 1718384400000) = (2024, 5, 14)"
    by (simp add: LocalTime_fixed civil_2024_06_14_noon)
  have b0: "civil (LocalTime (fixed_zone 0) 961027200000) = (2000, 5, 15)"
    by (simp add: LocalTime_0 civil_2000_06_15)
  have n0: "civil (LocalTime (fixed_zone 0) 1718384400000) = (2024, 5, 14)"
    by (simp add: LocalTime_0 civil_2024_06_14_utc)
  have 1: "calculateAge (fixed_zone (- 18000000)) parse_date_only 1718384400000 ?x = Some 24"
    using calculateAge_civil[OF x b n] by simp
  have 2: "calculateAge (fixed_zone 0) parse_date_only 1718384400000 ?x = Some 23"
    using calculateAge_civil[OF x b0 n0] by simp
  from 1 2 b n show ?thesis
    by (simp add: parse_date_only_2000_06_15 civil_2000_06_15)
qed

end
